theory Spec2Isabelle
  imports Main "HOL-Library.AList" "HOL-Library.Sublist"
begin

section \<open>JavaScript strings\<close>

text \<open>
  Strings are lists of characters. \<open>split_on c s\<close> is \<open>s.split(c)\<close> for a separator of
  one character (it never returns the empty list), \<open>join sep xs\<close> is \<open>xs.join(sep)\<close>,
  \<open>startsWith s p\<close> is \<open>s.startsWith(p)\<close> and \<open>trim\<close> is \<open>s.trim()\<close> on the
  white space of the first 256 code points.
\<close>

fun split_on :: "char \<Rightarrow> string \<Rightarrow> string list" where
  "split_on c [] = [[]]"
| "split_on c (x # xs) =
     (if x = c then [] # split_on c xs
      else (case split_on c xs of h # t \<Rightarrow> (x # h) # t | [] \<Rightarrow> [[x]]))"

fun join :: "string \<Rightarrow> string list \<Rightarrow> string" where
  "join sep [] = []"
| "join sep [x] = x"
| "join sep (x # y # ys) = x @ sep @ join sep (y # ys)"

definition startsWith :: "string \<Rightarrow> string \<Rightarrow> bool" where
  "startsWith s p = (take (length p) s = p)"

definition is_space :: "char \<Rightarrow> bool" where
  "is_space c = (c \<in> set [CHR 0x09, CHR 0x0A, CHR 0x0B, CHR 0x0C, CHR 0x0D, CHR 0x20, CHR 0xA0])"

definition trim :: "string \<Rightarrow> string" where
  "trim s = rev (dropWhile is_space (rev (dropWhile is_space s)))"

text \<open>A string or \<open>undefined\<close> is truthy when it is defined and not empty; \<open>js_or\<close> is \<open>||\<close>.\<close>

definition truthy :: "string option \<Rightarrow> bool" where
  "truthy v = (case v of None \<Rightarrow> False | Some s \<Rightarrow> s \<noteq> [])"

definition js_or :: "string option \<Rightarrow> string option \<Rightarrow> string option" where
  "js_or a b = (if truthy a then a else b)"

section \<open>Errors\<close>

text \<open>
  Every \<open>throw\<close> and every rejection of index.js is a value of \<open>error\<close>; the
  argument is what the message of the JavaScript error carries.
\<close>

datatype error =
    InsecurePermissions string
  | MissingEnvironment "string list"
  | ExampleSecrets "string list"
  | ConfigLoadFailed string
  | ReservedNotString
  | InvalidArgument
  | MissingRequired string
  | UnsafePath string
  | BinaryNotFound string
  | ProcessExited "int option"
  | ProcessError string

section \<open>EnvFileLoader\<close>

text \<open>
  \<open>process.env\<close> is an association list from the names of the variables to their
  values; \<open>env_get\<close> reads a variable. \<open>env_has\<close> is the \<open>in\<close> operator: \<open>process.env\<close>
  inherits from \<open>Object.prototype\<close>, so the operator is true of a variable that is set
  and of the property names of \<open>Object.prototype\<close> as well. \<open>env_set\<close> is an
  assignment: Node.js drops an assignment to the empty name without an error. A file
  on disk has its permission bits and its text; \<open>fs path = None\<close> says that
  \<open>fs.existsSync(path)\<close> is false. What the loader prints is not modelled.
\<close>

type_synonym env = "(string \<times> string) list"

definition object_prototype_names :: "string list" where
  "object_prototype_names =
     [''constructor'', ''__defineGetter__'', ''__defineSetter__'', ''hasOwnProperty'',
      ''__lookupGetter__'', ''__lookupSetter__'', ''isPrototypeOf'', ''propertyIsEnumerable'',
      ''toString'', ''valueOf'', ''__proto__'', ''toLocaleString'']"

definition env_get :: "env \<Rightarrow> string \<Rightarrow> string option" where
  "env_get e k = map_of e k"

definition env_has :: "string \<Rightarrow> env \<Rightarrow> bool" where
  "env_has k e = (map_of e k \<noteq> None \<or> k \<in> set object_prototype_names)"

definition env_set :: "string \<Rightarrow> string \<Rightarrow> env \<Rightarrow> env" where
  "env_set k v e = (if k = [] then e else AList.update k v e)"

record env_file =
  file_mode :: nat
  file_text :: string

type_synonym filesystem = "string \<Rightarrow> env_file option"

text \<open>
  The value of a line loses one leading and one trailing quote character, as
  \<open>replace(/^["']|["']$/g, '')\<close> does.
\<close>

definition is_quote :: "char \<Rightarrow> bool" where
  "is_quote c = (c = CHR 0x22 \<or> c = CHR 0x27)"

definition strip_quotes :: "string \<Rightarrow> string" where
  "strip_quotes s =
     (let s1 = (case s of [] \<Rightarrow> [] | c # cs \<Rightarrow> if is_quote c then cs else s)
      in if s1 \<noteq> [] \<and> is_quote (last s1) then butlast s1 else s1)"

text \<open>
  One line of an environment file (the body of the loop of \<open>loadEnvFromFile\<close>):
  \<open>parse_line\<close> is the part that skips blank lines and comments and splits the rest
  into \<open>key\<close> and \<open>value\<close>, \<open>load_line\<close> the conditional assignment. The test for
  an existing variable reads \<open>key\<close> as it was split off, the assignment writes
  \<open>key.trim()\<close> (and is dropped when that name is empty, as for the line \<open>=v\<close>).
\<close>

definition parse_line :: "string \<Rightarrow> (string \<times> string) option" where
  "parse_line line =
     (let trimmed = trim line
      in if trimmed = [] \<or> startsWith trimmed ''#'' then None
         else (case split_on CHR ''='' trimmed of
                 [] \<Rightarrow> None
               | key # rest \<Rightarrow> Some (key, strip_quotes (trim (join ''='' rest)))))"

definition load_line :: "bool \<Rightarrow> string \<Rightarrow> env \<Rightarrow> env" where
  "load_line override line e =
     (case parse_line line of
        None \<Rightarrow> e
      | Some (key, val) \<Rightarrow>
          if override \<or> \<not> env_has key e then env_set (trim key) val e else e)"

definition file_lines :: "env_file \<Rightarrow> string list" where
  "file_lines f = split_on CHR 0x0A (file_text f)"

definition loadEnvFromFile :: "filesystem \<Rightarrow> string \<Rightarrow> bool \<Rightarrow> env \<Rightarrow> env \<times> error option" where
  "loadEnvFromFile fs filepath override e =
     (case fs filepath of
        None \<Rightarrow> (e, None)
      | Some f \<Rightarrow>
          if file_mode f mod 512 \<noteq> 384 \<and> env_get e ''NODE_ENV'' = Some ''production''
          then (e, Some (InsecurePermissions filepath))
          else (fold (load_line override) (file_lines f) e, None))"

text \<open>
  The checks of production mode at the end of \<open>loadEnvFiles\<close>. The regular
  expressions \<open>/key|token|secret|password/i\<close> and \<open>/example|test|dummy/i\<close> look for a
  word anywhere in the string, letters compared without case.
\<close>

definition to_lower :: "char \<Rightarrow> char" where
  "to_lower c =
     (let n = (of_char c :: nat) in if 65 \<le> n \<and> n \<le> 90 then char_of (n + 32) else c)"

fun contains :: "string \<Rightarrow> string \<Rightarrow> bool" where
  "contains [] w = (w = [])"
| "contains (c # cs) w = (startsWith (c # cs) w \<or> contains cs w)"

definition contains_any_ci :: "string \<Rightarrow> string list \<Rightarrow> bool" where
  "contains_any_ci s ws = list_ex (contains (map to_lower s)) ws"

definition requiredVars :: "string list" where
  "requiredVars = [''PACKR_SCSS_INPUT'', ''PACKR_SCSS_OUTPUT'', ''PACKR_JS_INPUT'', ''PACKR_JS_OUTPUT'']"

definition production_checks :: "env \<Rightarrow> error option" where
  "production_checks e =
     (let missing = filter (\<lambda>key. \<not> truthy (env_get e key)) requiredVars
      in if missing \<noteq> [] then Some (MissingEnvironment missing)
         else let sensitiveVars =
                    filter (\<lambda>key. startsWith key ''PACKR_''
                                  \<and> contains_any_ci key [''key'', ''token'', ''secret'', ''password'']
                                  \<and> (case env_get e key of
                                        None \<Rightarrow> False
                                      | Some v \<Rightarrow> contains_any_ci v [''example'', ''test'', ''dummy'']))
                           (remdups (map fst e))
              in if sensitiveVars \<noteq> [] then Some (ExampleSecrets sensitiveVars) else None)"

text \<open>
  \<open>loadEnvFiles\<close>: the base file without override, the file of the runtime mode with
  override, in development mode the local file with override and the sourcemap
  variable saved and restored around it, in production mode the checks. A load that
  throws ends the function with the environment as it is then.
\<close>

definition nodeEnv_of :: "env \<Rightarrow> string" where
  "nodeEnv_of e = (if truthy (env_get e ''NODE_ENV'') then the (env_get e ''NODE_ENV'') else ''development'')"

definition load_local :: "filesystem \<Rightarrow> env \<Rightarrow> env \<times> error option" where
  "load_local fs e =
     (let currentSourcemap = env_get e ''PACKR_SOURCEMAP''
      in case loadEnvFromFile fs ''.env-local'' True e of
           (e', Some err) \<Rightarrow> (e', Some err)
         | (e', None) \<Rightarrow>
             (case currentSourcemap of
                None \<Rightarrow> (e', None)
              | Some v \<Rightarrow> (env_set ''PACKR_SOURCEMAP'' v e', None)))"

definition loadEnvFiles :: "filesystem \<Rightarrow> env \<Rightarrow> env \<times> error option" where
  "loadEnvFiles fs e0 =
     (case loadEnvFromFile fs ''.env'' False e0 of
        (e1, Some err) \<Rightarrow> (e1, Some err)
      | (e1, None) \<Rightarrow>
          (let nodeEnv = nodeEnv_of e1;
               envFile = ''.env-'' @ nodeEnv
           in case loadEnvFromFile fs envFile True e1 of
                (e2, Some err) \<Rightarrow> (e2, Some err)
              | (e2, None) \<Rightarrow>
                  (case (if nodeEnv = ''development'' \<and> fs ''.env-local'' \<noteq> None
                         then load_local fs e2 else (e2, None)) of
                     (e3, Some err) \<Rightarrow> (e3, Some err)
                   | (e3, None) \<Rightarrow>
                       if nodeEnv = ''production'' then (e3, production_checks e3)
                       else (e3, None))))"

section \<open>The path module of Node.js (POSIX)\<close>

text \<open>
  index.js calls \<open>path.resolve\<close>, \<open>path.relative\<close>, \<open>path.isAbsolute\<close>,
  \<open>path.basename\<close>, \<open>path.dirname\<close> and \<open>path.join\<close>. They are modelled after
  the POSIX implementation of Node.js. \<open>normalizeString\<close> walks over the segments
  between slashes: an empty segment and \<open>.\<close> are dropped, \<open>..\<close> removes the last
  segment kept so far (and is kept itself only where leaving the start is allowed),
  any other segment is kept.
\<close>

fun normalize_segs :: "bool \<Rightarrow> string list \<Rightarrow> string list \<Rightarrow> string list" where
  "normalize_segs allowAboveRoot res [] = res"
| "normalize_segs allowAboveRoot res (s # ss) =
     (if s = [] \<or> s = ''.'' then normalize_segs allowAboveRoot res ss
      else if s = ''..'' then
        (if res \<noteq> [] \<and> last res \<noteq> ''..'' then normalize_segs allowAboveRoot (butlast res) ss
         else if allowAboveRoot then normalize_segs allowAboveRoot (res @ [''..'']) ss
         else normalize_segs allowAboveRoot res ss)
      else normalize_segs allowAboveRoot (res @ [s]) ss)"

definition normalizeString :: "string \<Rightarrow> bool \<Rightarrow> string" where
  "normalizeString path allowAboveRoot =
     join ''/'' (normalize_segs allowAboveRoot [] (split_on CHR ''/'' path))"

definition path_isAbsolute :: "string \<Rightarrow> bool" where
  "path_isAbsolute p = (case p of [] \<Rightarrow> False | c # cs \<Rightarrow> c = CHR ''/'')"

text \<open>
  \<open>path.resolve\<close> reads its arguments from the last to the first, then the working
  directory, until the path collected is absolute; empty arguments are skipped.
  \<open>resolve_loop\<close> gets the arguments in that order.
\<close>

fun resolve_loop :: "string list \<Rightarrow> string \<Rightarrow> bool \<Rightarrow> string \<times> bool" where
  "resolve_loop [] resolvedPath resolvedAbsolute = (resolvedPath, resolvedAbsolute)"
| "resolve_loop (p # ps) resolvedPath resolvedAbsolute =
     (if resolvedAbsolute then (resolvedPath, resolvedAbsolute)
      else if p = [] then resolve_loop ps resolvedPath resolvedAbsolute
      else resolve_loop ps (p @ ''/'' @ resolvedPath) (path_isAbsolute p))"

definition path_resolve :: "string \<Rightarrow> string list \<Rightarrow> string" where
  "path_resolve cwd args =
     (case resolve_loop (rev args @ [cwd]) [] False of
        (resolvedPath, resolvedAbsolute) \<Rightarrow>
          (let n = normalizeString resolvedPath (\<not> resolvedAbsolute)
           in if resolvedAbsolute then ''/'' @ n else if n \<noteq> [] then n else ''.''))"

text \<open>
  \<open>path.relative\<close> resolves both paths, drops the leading segments they share, and
  answers one \<open>..\<close> for each segment left of \<open>from\<close> followed by what is left of
  \<open>to\<close>.
\<close>

definition path_segments :: "string \<Rightarrow> string list" where
  "path_segments p = filter (\<lambda>s. s \<noteq> []) (split_on CHR ''/'' p)"

fun strip_common :: "string list \<Rightarrow> string list \<Rightarrow> string list \<times> string list" where
  "strip_common (a # as) (b # bs) = (if a = b then strip_common as bs else (a # as, b # bs))"
| "strip_common as bs = (as, bs)"

definition path_relative :: "string \<Rightarrow> string \<Rightarrow> string \<Rightarrow> string" where
  "path_relative cwd from to =
     (if from = to then []
      else let from' = path_resolve cwd [from]; to' = path_resolve cwd [to]
           in if from' = to' then []
              else (case strip_common (path_segments from') (path_segments to') of
                      (up, down) \<Rightarrow> join ''/'' (replicate (length up) ''..'' @ down)))"

text \<open>
  \<open>path.basename\<close> is the last segment, trailing slashes ignored. \<open>path.dirname\<close>
  is what precedes the slash before that segment; it looks for the slash from index 1
  on, answers \<open>/\<close> or \<open>.\<close> when there is none and \<open>//\<close> when the slash found is at
  index 1 of a path that starts with a slash.
\<close>

definition path_basename :: "string \<Rightarrow> string" where
  "path_basename p =
     rev (takeWhile (\<lambda>c. c \<noteq> CHR ''/'') (dropWhile (\<lambda>c. c = CHR ''/'') (rev p)))"

definition path_dirname :: "string \<Rightarrow> string" where
  "path_dirname p =
     (case p of [] \<Rightarrow> ''.''
      | c # cs \<Rightarrow>
         (let hasRoot = (c = CHR ''/'');
              r = dropWhile (\<lambda>c. c \<noteq> CHR ''/'') (dropWhile (\<lambda>c. c = CHR ''/'') (rev cs))
          in case r of [] \<Rightarrow> (if hasRoot then ''/'' else ''.'')
             | slash # front \<Rightarrow>
                 if hasRoot \<and> front = [] then ''//'' else c # rev front))"

definition path_normalize :: "string \<Rightarrow> string" where
  "path_normalize p =
     (if p = [] then ''.''
      else let isAbsolute = path_isAbsolute p;
               trailingSeparator = (last p = CHR ''/'');
               n = normalizeString p (\<not> isAbsolute)
           in if n = [] then (if isAbsolute then ''/'' else if trailingSeparator then ''./'' else ''.'')
              else (if isAbsolute then ''/'' else []) @ n @ (if trailingSeparator then ''/'' else []))"

definition path_join :: "string list \<Rightarrow> string" where
  "path_join args =
     (let parts = filter (\<lambda>a. a \<noteq> []) args
      in if parts = [] then ''.'' else path_normalize (join ''/'' parts))"

section \<open>PathSandbox\<close>

text \<open>
  \<open>PROJECT_ROOT\<close> is \<open>process.cwd()\<close> when the module is loaded. The module never
  changes the working directory, so one parameter \<open>cwd\<close> stands for both the root and
  the directory \<open>path.resolve\<close> falls back to.
\<close>

definition isPathInside :: "string \<Rightarrow> string \<Rightarrow> string \<Rightarrow> bool" where
  "isPathInside cwd childPath parentPath =
     (let relative = path_relative cwd parentPath childPath
      in \<not> startsWith relative ''..'' \<and> \<not> path_isAbsolute relative)"

definition resolveSafe :: "string \<Rightarrow> string \<Rightarrow> string \<Rightarrow> error + string" where
  "resolveSafe cwd p baseDir =
     (let resolved = path_resolve cwd [baseDir, p]
      in if \<not> isPathInside cwd resolved cwd then Inl (UnsafePath p) else Inr resolved)"

section \<open>ConfigMerger\<close>

text \<open>
  The options of a call and the contents of the configuration file. A field that is
  absent is \<open>None\<close> (\<open>undefined\<close> in JavaScript). \<open>uglify.reserved\<close> is a string of
  names separated by commas or, as the README writes it in a configuration file, an
  array of names.
\<close>

datatype reserved_value = ReservedString string | ReservedArray "string list"

record opt_uglify =
  opt_mangle :: "bool option"
  opt_keepFnames :: "bool option"
  opt_keepClassnames :: "bool option"
  opt_reserved :: "reserved_value option"

record options =
  opt_config :: "string option"
  opt_scssInput :: "string option"
  opt_scssOutput :: "string option"
  opt_jsInput :: "string option"
  opt_jsOutput :: "string option"
  opt_cssDestination :: "string option"
  opt_jsDestination :: "string option"
  opt_minify :: "bool option"
  opt_minifyJs :: "bool option"
  opt_minifyCss :: "bool option"
  opt_uglify :: "opt_uglify option"
  opt_target :: "string option"
  opt_verbose :: "bool option"
  opt_sourcemap :: "bool option"
  opt_format :: "string option"
  opt_watch :: "bool option"

record cfg_uglify =
  cfg_mangle :: "bool option"
  cfg_keep_fnames :: "bool option"
  cfg_keep_classnames :: "bool option"
  cfg_reserved :: "reserved_value option"

record file_config =
  cfg_scss_input :: "string option"
  cfg_scss_output :: "string option"
  cfg_js_input :: "string option"
  cfg_js_output :: "string option"
  cfg_css_destination :: "string option"
  cfg_js_destination :: "string option"
  cfg_minify :: "bool option"
  cfg_minify_js :: "bool option"
  cfg_minify_css :: "bool option"
  cfg_uglify :: "cfg_uglify option"
  cfg_target :: "string option"
  cfg_verbose :: "bool option"
  cfg_sourcemap :: "bool option"
  cfg_format :: "string option"
  cfg_eslint :: "bool option"
  cfg_eslint_config :: "string option"

definition empty_file_config :: file_config where
  "empty_file_config =
     \<lparr>cfg_scss_input = None, cfg_scss_output = None, cfg_js_input = None, cfg_js_output = None,
      cfg_css_destination = None, cfg_js_destination = None, cfg_minify = None,
      cfg_minify_js = None, cfg_minify_css = None, cfg_uglify = None, cfg_target = None,
      cfg_verbose = None, cfg_sourcemap = None, cfg_format = None, cfg_eslint = None,
      cfg_eslint_config = None\<rparr>"

record uglify_config =
  mangle :: bool
  keep_fnames :: bool
  keep_classnames :: bool
  reserved :: "string list"

record user_config =
  scss_input :: "string option"
  scss_output :: "string option"
  js_input :: "string option"
  js_output :: "string option"
  css_destination :: "string option"
  js_destination :: "string option"
  minify :: bool
  minify_js :: bool
  minify_css :: bool
  uglify :: uglify_config
  target :: string
  verbose :: bool
  sourcemap :: bool
  format :: string
  eslint :: bool
  eslint_config :: "string option"

text \<open>
  \<open>defined_or a b d\<close> is \<open>a !== undefined ? a : b !== undefined ? b : d\<close>;
  \<open>or_default v d\<close> is \<open>v || d\<close> for a default \<open>d\<close> that is not empty;
  \<open>is_true v\<close> is the value of \<open>v || false\<close> for a boolean or undefined \<open>v\<close>.
\<close>

definition defined_or :: "bool option \<Rightarrow> bool option \<Rightarrow> bool \<Rightarrow> bool" where
  "defined_or a b d = (case a of Some x \<Rightarrow> x | None \<Rightarrow> (case b of Some y \<Rightarrow> y | None \<Rightarrow> d))"

definition or_default :: "string option \<Rightarrow> string \<Rightarrow> string" where
  "or_default v d = (case v of None \<Rightarrow> d | Some s \<Rightarrow> if s \<noteq> [] then s else d)"

definition is_true :: "bool option \<Rightarrow> bool" where
  "is_true v = (v = Some True)"

text \<open>
  The reserved names: the first truthy value of the variable, the option and the file
  (an array is truthy), else the empty string; \<open>.split(',')\<close> exists on a string only,
  so an array ends the call with a TypeError.
\<close>

definition reserved_truthy :: "reserved_value option \<Rightarrow> bool" where
  "reserved_truthy v =
     (case v of None \<Rightarrow> False | Some (ReservedString s) \<Rightarrow> s \<noteq> [] | Some (ReservedArray xs) \<Rightarrow> True)"

definition reserved_names :: "string option \<Rightarrow> reserved_value option \<Rightarrow> reserved_value option \<Rightarrow> error + string list" where
  "reserved_names ev ov fv =
     (let chosen = (if truthy ev then ReservedString (the ev)
                    else if reserved_truthy ov then the ov
                    else if reserved_truthy fv then the fv
                    else ReservedString [])
      in case chosen of
           ReservedArray xs \<Rightarrow> Inl ReservedNotString
         | ReservedString s \<Rightarrow> Inr (filter (\<lambda>n. n \<noteq> []) (split_on CHR '','' s)))"

definition userConfig :: "env \<Rightarrow> options \<Rightarrow> file_config \<Rightarrow> error + user_config" where
  "userConfig e options configFromFile =
     (let ou = opt_uglify options; fu = cfg_uglify configFromFile
      in case reserved_names (env_get e ''PACKR_UGLIFY_RESERVED'')
                (Option.bind ou opt_reserved) (Option.bind fu cfg_reserved) of
           Inl err \<Rightarrow> Inl err
         | Inr names \<Rightarrow> Inr
      \<lparr>scss_input = js_or (env_get e ''PACKR_SCSS_INPUT'') (js_or (opt_scssInput options) (cfg_scss_input configFromFile)),
       scss_output = js_or (env_get e ''PACKR_SCSS_OUTPUT'') (js_or (opt_scssOutput options) (cfg_scss_output configFromFile)),
       js_input = js_or (env_get e ''PACKR_JS_INPUT'') (js_or (opt_jsInput options) (cfg_js_input configFromFile)),
       js_output = js_or (env_get e ''PACKR_JS_OUTPUT'') (js_or (opt_jsOutput options) (cfg_js_output configFromFile)),
       css_destination = js_or (env_get e ''PACKR_CSS_DESTINATION'') (js_or (opt_cssDestination options) (cfg_css_destination configFromFile)),
       js_destination = js_or (env_get e ''PACKR_JS_DESTINATION'') (js_or (opt_jsDestination options) (cfg_js_destination configFromFile)),
       minify = (env_get e ''PACKR_MINIFY'' = Some ''true'' \<or>
                 (env_get e ''PACKR_MINIFY'' \<noteq> Some ''false'' \<and>
                  defined_or (opt_minify options) (cfg_minify configFromFile) True)),
       minify_js = (env_get e ''PACKR_MINIFY_JS'' = Some ''true'' \<or>
                 (env_get e ''PACKR_MINIFY_JS'' \<noteq> Some ''false'' \<and>
                  defined_or (opt_minifyJs options) (cfg_minify_js configFromFile) True)),
       minify_css = (env_get e ''PACKR_MINIFY_CSS'' = Some ''true'' \<or>
                 (env_get e ''PACKR_MINIFY_CSS'' \<noteq> Some ''false'' \<and>
                  defined_or (opt_minifyCss options) (cfg_minify_css configFromFile) True)),
       uglify =
         \<lparr>mangle = (env_get e ''PACKR_UGLIFY_MANGLE'' = Some ''true'' \<or>
                    (env_get e ''PACKR_UGLIFY_MANGLE'' \<noteq> Some ''false'' \<and>
                     defined_or (Option.bind ou opt_mangle) (Option.bind fu cfg_mangle) True)),
          keep_fnames = (env_get e ''PACKR_UGLIFY_KEEP_FNAMES'' = Some ''true'' \<or>
                     defined_or (Option.bind ou opt_keepFnames) (Option.bind fu cfg_keep_fnames) False),
          keep_classnames = (env_get e ''PACKR_UGLIFY_KEEP_CLASSNAMES'' = Some ''true'' \<or>
                     defined_or (Option.bind ou opt_keepClassnames) (Option.bind fu cfg_keep_classnames) False),
          reserved = names\<rparr>,
       target = or_default (js_or (env_get e ''PACKR_TARGET'') (js_or (opt_target options) (cfg_target configFromFile))) ''es2020'',
       verbose = (env_get e ''PACKR_VERBOSE'' = Some ''true'' \<or> is_true (opt_verbose options)
                  \<or> is_true (cfg_verbose configFromFile)),
       sourcemap = (if env_get e ''PACKR_SOURCEMAP'' = Some ''true'' then True
                    else if env_get e ''PACKR_SOURCEMAP'' = Some ''false'' then False
                    else defined_or (opt_sourcemap options) (cfg_sourcemap configFromFile) False),
       format = or_default (js_or (env_get e ''PACKR_FORMAT'') (js_or (opt_format options) (cfg_format configFromFile))) ''iife'',
       eslint = (env_get e ''PACKR_ESLINT'' = Some ''true'' \<or> is_true (cfg_eslint configFromFile)),
       eslint_config = js_or (env_get e ''PACKR_ESLINT_CONFIG'') (cfg_eslint_config configFromFile)\<rparr>)"

text \<open>The loop over the required fields throws at the first one that is not truthy.\<close>

definition required :: "(string \<times> (user_config \<Rightarrow> string option)) list" where
  "required = [(''scss_input'', scss_input), (''scss_output'', scss_output),
               (''js_input'', js_input), (''js_output'', js_output)]"

fun validate_required :: "(string \<times> (user_config \<Rightarrow> string option)) list \<Rightarrow> user_config \<Rightarrow> error option" where
  "validate_required [] uc = None"
| "validate_required ((key, field) # keys) uc =
     (if \<not> truthy (field uc) then Some (MissingRequired key) else validate_required keys uc)"

section \<open>Outcome of the worker process\<close>

text \<open>
  The promise returned at the end of \<open>packr\<close> (index.js, lines 330-351) registers two
  handlers on the spawned process: \<open>close\<close>, called with the exit code (\<open>null\<close> when the
  process was ended by a signal), and \<open>error\<close>, called with the error of the operating
  system. A promise settles once, so the first event that arrives decides it.
\<close>

datatype worker_event = Close "int option" | ErrorEvent string

datatype outcome = Resolved | Rejected error

fun on_event :: "worker_event \<Rightarrow> outcome" where
  "on_event (Close code) = (if code = Some 0 then Resolved else Rejected (ProcessExited code))"
| "on_event (ErrorEvent err) = Rejected (ProcessError err)"

fun settle :: "worker_event list \<Rightarrow> outcome option" where
  "settle [] = None"
| "settle (e # later) = Some (on_event e)"

section \<open>OutputNormalizer\<close>

definition joinOut :: "string \<Rightarrow> string \<Rightarrow> string option \<Rightarrow> string \<Rightarrow> string" where
  "joinOut cwd outFile destDir baseDir =
     (let outAbs = path_resolve cwd [baseDir, outFile];
          outBase = path_basename outAbs;
          outDir = (if truthy destDir then path_resolve cwd [baseDir, the destDir]
                    else path_dirname outAbs)
      in path_join [outDir, outBase])"

section \<open>The entry point\<close>

text \<open>
  What \<open>packr\<close> reads from outside: the working directory, the environment, the
  configuration files that can be read and parsed (\<open>None\<close>: reading or parsing
  throws), where the worker binary is expected and whether it is there, and the events
  the worker process emits once it is spawned. What it does to the outside is a list
  of effects, in the order they happen.
\<close>

record world =
  workdir :: string
  environ :: env
  read_config :: "string \<Rightarrow> file_config option"
  binaryPath :: string
  binary_exists :: bool
  worker :: "worker_event list"

record config =
  conf_scss_input :: string
  conf_scss_output :: string
  conf_js_input :: string
  conf_js_output :: string
  conf_css_destination :: "string option"
  conf_js_destination :: "string option"
  conf_user :: user_config

record artifact =
  art_scss_input :: string
  art_scss_output :: string
  art_js_input :: string
  art_js_output :: string
  art_minify :: bool
  art_minify_js :: bool
  art_minify_css :: bool
  art_uglify :: uglify_config
  art_target :: string
  art_verbose :: bool
  art_sourcemap :: bool
  art_format :: string

datatype effect = WriteFile string artifact | SpawnProcess string "string list"

datatype result = Thrown error | Promise "outcome option"

text \<open>
  The configuration file is read when \<open>options.config\<close> is truthy; \<open>configDir\<close> is
  then the directory of that file, else the project root.
\<close>

definition load_config :: "world \<Rightarrow> options \<Rightarrow> error + (file_config \<times> string)" where
  "load_config w options =
     (if truthy (opt_config options)
      then (case read_config w (the (opt_config options)) of
              None \<Rightarrow> Inl (ConfigLoadFailed (the (opt_config options)))
            | Some configFromFile \<Rightarrow>
                Inr (configFromFile, path_dirname (path_resolve (workdir w) [the (opt_config options)])))
      else Inr (empty_file_config, workdir w))"

text \<open>
  The object \<open>config\<close>: the fields are evaluated in the order written, and the first
  \<open>resolveSafe\<close> that throws ends the call. The four required fields are strings
  here, the validation before has seen to it (\<open>path.resolve\<close> throws a TypeError on
  \<open>undefined\<close>). \<open>eslint_config\<close> stays as it is in \<open>userConfig\<close>.
\<close>

definition then_do :: "error + 'a \<Rightarrow> ('a \<Rightarrow> error + 'b) \<Rightarrow> error + 'b" where
  "then_do r f = (case r of Inl err \<Rightarrow> Inl err | Inr v \<Rightarrow> f v)"

definition resolve_optional :: "string \<Rightarrow> string option \<Rightarrow> string \<Rightarrow> error + string option" where
  "resolve_optional root v configDir =
     (if truthy v then then_do (resolveSafe root (the v) configDir) (\<lambda>r. Inr (Some r)) else Inr None)"

definition resolve_required :: "string \<Rightarrow> string option \<Rightarrow> string \<Rightarrow> error + string" where
  "resolve_required root v configDir =
     (case v of None \<Rightarrow> Inl InvalidArgument | Some p \<Rightarrow> resolveSafe root p configDir)"

definition resolve_paths :: "string \<Rightarrow> string \<Rightarrow> user_config \<Rightarrow> error + config" where
  "resolve_paths root configDir uc =
     then_do (resolve_required root (scss_input uc) configDir) (\<lambda>si.
     then_do (resolve_required root (scss_output uc) configDir) (\<lambda>so.
     then_do (resolve_required root (js_input uc) configDir) (\<lambda>ji.
     then_do (resolve_required root (js_output uc) configDir) (\<lambda>jo.
     then_do (resolve_optional root (css_destination uc) configDir) (\<lambda>cd.
     then_do (resolve_optional root (js_destination uc) configDir) (\<lambda>jd.
       Inr \<lparr>conf_scss_input = si, conf_scss_output = so, conf_js_input = ji,
            conf_js_output = jo, conf_css_destination = cd, conf_js_destination = jd,
            conf_user = uc\<rparr>))))))"

definition make_artifact :: "string \<Rightarrow> string \<Rightarrow> config \<Rightarrow> artifact" where
  "make_artifact root configDir c =
     \<lparr>art_scss_input = conf_scss_input c,
      art_scss_output = joinOut root (conf_scss_output c) (conf_css_destination c) configDir,
      art_js_input = conf_js_input c,
      art_js_output = joinOut root (conf_js_output c) (conf_js_destination c) configDir,
      art_minify = minify (conf_user c),
      art_minify_js = minify_js (conf_user c),
      art_minify_css = minify_css (conf_user c),
      art_uglify = uglify (conf_user c),
      art_target = target (conf_user c),
      art_verbose = verbose (conf_user c),
      art_sourcemap = sourcemap (conf_user c),
      art_format = format (conf_user c)\<rparr>"

text \<open>
  The last part of \<open>packr\<close>: the artifact is written, then the binary is looked for
  (a rejected promise when it is missing), then the worker is spawned with the path of
  the artifact and \<open>--watch\<close> when asked for; the promise settles with the first event
  of the worker.
\<close>

definition launch :: "world \<Rightarrow> options \<Rightarrow> string \<Rightarrow> config \<Rightarrow> result \<times> effect list" where
  "launch w options configDir c =
     (let configPath = path_resolve (workdir w) [''.packr-config.json''];
          written = WriteFile configPath (make_artifact (workdir w) configDir c)
      in if \<not> binary_exists w
         then (Promise (Some (Rejected (BinaryNotFound (binaryPath w)))), [written])
         else let args = configPath # (if is_true (opt_watch options) then [''--watch''] else [])
              in (Promise (settle (worker w)), [written, SpawnProcess (binaryPath w) args]))"

definition packr :: "world \<Rightarrow> options \<Rightarrow> result \<times> effect list" where
  "packr w options =
     (case load_config w options of
        Inl err \<Rightarrow> (Thrown err, [])
      | Inr (configFromFile, configDir) \<Rightarrow>
          (case userConfig (environ w) options configFromFile of
             Inl err \<Rightarrow> (Thrown err, [])
           | Inr uc \<Rightarrow>
               (case validate_required required uc of
                  Some err \<Rightarrow> (Thrown err, [])
                | None \<Rightarrow>
                    (case resolve_paths (workdir w) configDir uc of
                       Inl err \<Rightarrow> (Thrown err, [])
                     | Inr c \<Rightarrow> launch w options configDir c))))"

section \<open>Vocabulary of the properties\<close>

text \<open>
  A path in normal form is a slash followed by clean segments joined by slashes: no
  segment is empty, \<open>.\<close> or \<open>..\<close>, and the path does not end in a slash (the root
  \<open>/\<close> has no segment). These are the paths \<open>path.resolve\<close> returns.
\<close>

definition clean_segment :: "string \<Rightarrow> bool" where
  "clean_segment s = (s \<noteq> [] \<and> s \<noteq> ''.'' \<and> s \<noteq> ''..'' \<and> CHR ''/'' \<notin> set s)"

definition absolute_normal :: "string \<Rightarrow> bool" where
  "absolute_normal p =
     (p = ''/'' @ join ''/'' (path_segments p) \<and> list_all clean_segment (path_segments p))"

definition resolve_segs :: "string \<Rightarrow> string list \<Rightarrow> string list" where
  "resolve_segs cwd args =
     normalize_segs False [] (path_segments (fst (resolve_loop (rev args @ [cwd]) [] False)))"

text \<open>
  The assignments a file asks for, in the order of its lines, each with the name that
  is written (\<open>key.trim()\<close>; a line whose name is empty asks for none); the lines of a
  file that may be absent; whether a file
  passes the permission check of \<open>loadEnvFromFile\<close>; whether every key of a file is
  written without white space before the equals sign; the environment after the base
  file and after the file of the runtime mode.
\<close>

definition line_value :: "string \<Rightarrow> (string \<times> string) option" where
  "line_value line =
     (case parse_line line of
        None \<Rightarrow> None
      | Some (key, val) \<Rightarrow> if trim key = [] then None else Some (trim key, val))"

definition lines_at :: "filesystem \<Rightarrow> string \<Rightarrow> string list" where
  "lines_at fs path = (case fs path of None \<Rightarrow> [] | Some f \<Rightarrow> file_lines f)"

definition values_at :: "filesystem \<Rightarrow> string \<Rightarrow> (string \<times> string) list" where
  "values_at fs path = List.map_filter line_value (lines_at fs path)"

definition plain_keys :: "filesystem \<Rightarrow> string \<Rightarrow> bool" where
  "plain_keys fs path =
     list_all (\<lambda>line. case parse_line line of None \<Rightarrow> True | Some (key, val) \<Rightarrow> trim key = key)
       (lines_at fs path)"

definition file_passes :: "filesystem \<Rightarrow> string \<Rightarrow> env \<Rightarrow> bool" where
  "file_passes fs path e =
     (case fs path of
        None \<Rightarrow> True
      | Some f \<Rightarrow> file_mode f mod 512 = 384 \<or> env_get e ''NODE_ENV'' \<noteq> Some ''production'')"

definition base_loaded :: "filesystem \<Rightarrow> env \<Rightarrow> env" where
  "base_loaded fs e0 = fold (load_line False) (lines_at fs ''.env'') e0"

definition mode_file :: "filesystem \<Rightarrow> env \<Rightarrow> string" where
  "mode_file fs e0 = ''.env-'' @ nodeEnv_of (base_loaded fs e0)"

definition mode_loaded :: "filesystem \<Rightarrow> env \<Rightarrow> env" where
  "mode_loaded fs e0 = fold (load_line True) (lines_at fs (mode_file fs e0)) (base_loaded fs e0)"




section \<open>Example inputs\<close>

text \<open>
  Environment files: the two files of the production example with permission bits
  0600, with 0644, and with 0644 on the second file only; a base file whose key is
  followed by a space; the files of a development setup. And an environment of
  production mode that has the four required variables.
\<close>

definition env_production :: env where
  "env_production =
     [(''NODE_ENV'', ''production''), (''PACKR_SCSS_INPUT'', ''src/scss/app.scss''),
      (''PACKR_SCSS_OUTPUT'', ''dist/app.css''), (''PACKR_JS_INPUT'', ''src/js/app.js''),
      (''PACKR_JS_OUTPUT'', ''dist/app.js'')]"

definition fs_production_mode_644 :: filesystem where
  "fs_production_mode_644 =
     [''.env'' \<mapsto> \<lparr>file_mode = 384, file_text = ''FOO=1''\<rparr>,
      ''.env-production'' \<mapsto> \<lparr>file_mode = 420, file_text = ''FOO=2''\<rparr>]"

definition fs_production :: filesystem where
  "fs_production =
     [''.env'' \<mapsto> \<lparr>file_mode = 384, file_text = ''FOO=1''\<rparr>,
      ''.env-production'' \<mapsto> \<lparr>file_mode = 384, file_text = ''FOO=2''\<rparr>]"

definition fs_production_644 :: filesystem where
  "fs_production_644 =
     [''.env'' \<mapsto> \<lparr>file_mode = 420, file_text = ''FOO=1''\<rparr>,
      ''.env-production'' \<mapsto> \<lparr>file_mode = 420, file_text = ''FOO=2''\<rparr>]"

definition fs_spaced :: filesystem where
  "fs_spaced = [''.env'' \<mapsto> \<lparr>file_mode = 420, file_text = ''FOO =1''\<rparr>]"

definition fs_development :: filesystem where
  "fs_development =
     [''.env-development'' \<mapsto>
        \<lparr>file_mode = 420, file_text = ''PACKR_SOURCEMAP=true\<newline>PACKR_TARGET=es2019''\<rparr>,
      ''.env-local'' \<mapsto>
        \<lparr>file_mode = 420, file_text = ''PACKR_SOURCEMAP=false\<newline>PACKR_TARGET=es2022''\<rparr>]"

text \<open>Calls of \<open>packr\<close>: no options at all, and a configuration file with the four paths.\<close>

definition no_options :: options where
  "no_options =
     \<lparr>opt_config = None, opt_scssInput = None, opt_scssOutput = None, opt_jsInput = None,
      opt_jsOutput = None, opt_cssDestination = None, opt_jsDestination = None,
      opt_minify = None, opt_minifyJs = None, opt_minifyCss = None, opt_uglify = None,
      opt_target = None, opt_verbose = None, opt_sourcemap = None, opt_format = None,
      opt_watch = None\<rparr>"

definition example_file :: file_config where
  "example_file =
     empty_file_config\<lparr>cfg_scss_input := Some ''src/scss/app.scss'',
                        cfg_scss_output := Some ''dist/app.css'',
                        cfg_js_input := Some ''src/js/app.js'',
                        cfg_js_output := Some ''dist/app.js''\<rparr>"

definition example_world :: world where
  "example_world =
     \<lparr>workdir = ''/proj'', environ = [], read_config = Map.empty,
      binaryPath = ''/pkg/bin/packr'', binary_exists = True, worker = [Close (Some 0)]\<rparr>"

definition bare_user_config :: user_config where
  "bare_user_config =
     \<lparr>scss_input = None, scss_output = None, js_input = None, js_output = None,
      css_destination = None, js_destination = None, minify = True, minify_js = True,
      minify_css = True,
      uglify = \<lparr>mangle = True, keep_fnames = False, keep_classnames = False, reserved = []\<rparr>,
      target = ''es2020'', verbose = False, sourcemap = False, format = ''iife'',
      eslint = False, eslint_config = None\<rparr>"

definition eslint_file :: file_config where
  "eslint_file =
     example_file\<lparr>cfg_eslint := Some True, cfg_eslint_config := Some ''../../outside/eslintrc.json''\<rparr>"

definition eslint_world :: world where
  "eslint_world = example_world\<lparr>read_config := [''packr.json'' \<mapsto> eslint_file]\<rparr>"

definition eslint_options :: options where
  "eslint_options = no_options\<lparr>opt_config := Some ''packr.json''\<rparr>"

definition eslint_artifact :: artifact where
  "eslint_artifact =
     \<lparr>art_scss_input = ''/proj/src/scss/app.scss'', art_scss_output = ''/proj/dist/app.css'',
      art_js_input = ''/proj/src/js/app.js'', art_js_output = ''/proj/dist/app.js'',
      art_minify = True, art_minify_js = True, art_minify_css = True,
      art_uglify = \<lparr>mangle = True, keep_fnames = False, keep_classnames = False, reserved = []\<rparr>,
      art_target = ''es2020'', art_verbose = False, art_sourcemap = False, art_format = ''iife''\<rparr>"

text \<open>
  A configuration file that switches six flags on, an environment that sets the
  variables of these flags to \<open>false\<close>, and the call that reads this file in this
  environment, with the artifact it writes.
\<close>

definition flags_file :: file_config where
  "flags_file =
     example_file\<lparr>cfg_minify := Some True, cfg_verbose := Some True, cfg_eslint := Some True,
       cfg_uglify := Some \<lparr>cfg_mangle = Some True, cfg_keep_fnames = Some True,
                             cfg_keep_classnames = Some True, cfg_reserved = None\<rparr>\<rparr>"

definition flags_env :: env where
  "flags_env =
     [(''PACKR_MINIFY'', ''false''), (''PACKR_UGLIFY_MANGLE'', ''false''),
      (''PACKR_UGLIFY_KEEP_FNAMES'', ''false''), (''PACKR_UGLIFY_KEEP_CLASSNAMES'', ''false''),
      (''PACKR_VERBOSE'', ''false''), (''PACKR_ESLINT'', ''false'')]"

definition flags_world :: world where
  "flags_world = example_world\<lparr>environ := flags_env, read_config := [''packr.json'' \<mapsto> flags_file]\<rparr>"

definition flags_options :: options where
  "flags_options = no_options\<lparr>opt_config := Some ''packr.json''\<rparr>"

definition flags_artifact :: artifact where
  "flags_artifact =
     \<lparr>art_scss_input = ''/proj/src/scss/app.scss'', art_scss_output = ''/proj/dist/app.css'',
      art_js_input = ''/proj/src/js/app.js'', art_js_output = ''/proj/dist/app.js'',
      art_minify = False, art_minify_js = True, art_minify_css = True,
      art_uglify = \<lparr>mangle = False, keep_fnames = True, keep_classnames = True, reserved = []\<rparr>,
      art_target = ''es2020'', art_verbose = True, art_sourcemap = False, art_format = ''iife''\<rparr>"





section \<open>Properties\<close>

subsection \<open>Paths in normal form\<close>

lemma split_on_not_Nil [simp]: "split_on c s \<noteq> []"
  by (induction s) (auto split: list.splits)

lemma split_on_append: "split_on c (a @ c # b) = split_on c a @ split_on c b"
  by (induction a) (auto split: list.splits)

lemma split_on_absent: "c \<notin> set s \<Longrightarrow> split_on c s = [s]"
  by (induction s) auto

lemma split_on_free: "x \<in> set (split_on c s) \<Longrightarrow> c \<notin> set x"
proof (induction s arbitrary: x)
  case Nil
  then show ?case by simp
next
  case (Cons a s)
  show ?case
  proof (cases "a = c")
    case True
    with Cons show ?thesis by auto
  next
    case False
    obtain h t where ht: "split_on c s = h # t"
      by (cases "split_on c s") auto
    with Cons.prems False have "x = a # h \<or> x \<in> set t" by auto
    with Cons.IH ht False show ?thesis by auto
  qed
qed

lemma path_segments_append:
  "path_segments (a @ CHR ''/'' # b) = path_segments a @ path_segments b"
  by (simp add: path_segments_def split_on_append)

lemma path_segments_Nil [simp]: "path_segments [] = []"
  by (simp add: path_segments_def)

lemma path_segments_single:
  "s \<noteq> [] \<Longrightarrow> CHR ''/'' \<notin> set s \<Longrightarrow> path_segments s = [s]"
  by (simp add: path_segments_def split_on_absent)

lemma path_segments_free: "x \<in> set (path_segments p) \<Longrightarrow> CHR ''/'' \<notin> set x \<and> x \<noteq> []"
  by (auto simp: path_segments_def dest: split_on_free)

lemma path_segments_join:
  "\<forall>s \<in> set segs. s \<noteq> [] \<and> CHR ''/'' \<notin> set s \<Longrightarrow> path_segments (join ''/'' segs) = segs"
proof (induction segs)
  case Nil
  then show ?case by simp
next
  case (Cons x xs)
  then show ?case
    by (cases xs) (simp_all add: path_segments_append path_segments_single)
qed

lemma path_segments_slash_join:
  "\<forall>s \<in> set segs. s \<noteq> [] \<and> CHR ''/'' \<notin> set s \<Longrightarrow> path_segments (CHR ''/'' # join ''/'' segs) = segs"
  using path_segments_append [of "[]" "join ''/'' segs"] by (simp add: path_segments_join)

lemma normalize_segs_filter:
  "normalize_segs a res xs = normalize_segs a res (filter (\<lambda>s. s \<noteq> []) xs)"
  by (induction a res xs rule: normalize_segs.induct) auto

lemma normalize_segs_clean:
  "list_all clean_segment xs \<Longrightarrow> normalize_segs a res xs = res @ xs"
  by (induction a res xs rule: normalize_segs.induct) (auto simp: clean_segment_def)

lemma normalize_segs_False_clean:
  "list_all clean_segment res \<Longrightarrow> \<forall>x \<in> set xs. CHR ''/'' \<notin> set x \<Longrightarrow>
   list_all clean_segment (normalize_segs False res xs)"
proof (induction "False" res xs rule: normalize_segs.induct)
  case (1 res)
  then show ?case by simp
next
  case (2 res s ss)
  have bl: "list_all clean_segment (butlast res)"
    using "2.prems"(1) by (auto simp: list_all_iff dest: in_set_butlastD)
  show ?case using 2 bl by (auto simp: clean_segment_def)
qed

lemma normalizeString_segments:
  "normalizeString p a = join ''/'' (normalize_segs a [] (path_segments p))"
  unfolding normalizeString_def path_segments_def
  using normalize_segs_filter [of a "[]" "split_on CHR ''/'' p"] by simp

lemma resolve_loop_absolute:
  "ab \<or> path_isAbsolute cwd \<Longrightarrow> snd (resolve_loop (ps @ [cwd]) acc ab)"
  by (induction ps acc ab rule: resolve_loop.induct) (auto simp: path_isAbsolute_def split: list.splits)

lemma path_resolve_segs:
  assumes "path_isAbsolute cwd"
  shows "path_resolve cwd args = CHR ''/'' # join ''/'' (resolve_segs cwd args)"
proof -
  obtain rp ra where r: "resolve_loop (rev args @ [cwd]) [] False = (rp, ra)"
    by (cases "resolve_loop (rev args @ [cwd]) [] False")
  with resolve_loop_absolute [of False cwd "rev args" "[]"] assms have "ra" by simp
  with r show ?thesis
    by (simp add: path_resolve_def resolve_segs_def normalizeString_segments)
qed

lemma resolve_segs_clean: "list_all clean_segment (resolve_segs cwd args)"
  unfolding resolve_segs_def
  by (rule normalize_segs_False_clean) (auto dest: path_segments_free)

lemma clean_segments_plain:
  "list_all clean_segment segs \<Longrightarrow> \<forall>s \<in> set segs. s \<noteq> [] \<and> CHR ''/'' \<notin> set s"
  by (auto simp: list_all_iff clean_segment_def)

lemma path_segments_resolve:
  "path_isAbsolute cwd \<Longrightarrow> path_segments (path_resolve cwd args) = resolve_segs cwd args"
  using path_segments_slash_join [OF clean_segments_plain [OF resolve_segs_clean], of cwd args]
  by (simp add: path_resolve_segs)

lemma resolve_absolute_normal:
  "path_isAbsolute cwd \<Longrightarrow> absolute_normal (path_resolve cwd args)"
  unfolding absolute_normal_def
  by (simp add: path_segments_resolve resolve_segs_clean) (simp add: path_resolve_segs)

lemma absolute_normal_isAbsolute: "absolute_normal p \<Longrightarrow> path_isAbsolute p"
  by (cases p) (auto simp: absolute_normal_def path_isAbsolute_def)

lemma resolve_loop_True: "resolve_loop ps acc True = (acc, True)"
  by (cases ps) simp_all

lemma resolve_fixed:
  assumes "absolute_normal p"
  shows "path_resolve cwd (bs @ [p]) = p"
proof -
  from assms have ne: "p \<noteq> []" and ab: "path_isAbsolute p"
    using absolute_normal_isAbsolute [OF assms] by (auto simp: path_isAbsolute_def)
  have loop: "resolve_loop (rev (bs @ [p]) @ [cwd]) [] False = (p @ ''/'', True)"
    using ne ab by (simp add: resolve_loop_True)
  have segs: "path_segments (p @ ''/'') = path_segments p"
    using path_segments_append [of p "[]"] by simp
  have "normalize_segs False [] (path_segments p) = path_segments p"
    using assms by (simp add: absolute_normal_def normalize_segs_clean)
  then have "path_resolve cwd (bs @ [p]) = ''/'' @ join ''/'' (path_segments p)"
    unfolding path_resolve_def loop by (simp add: normalizeString_segments segs)
  with assms show ?thesis by (simp add: absolute_normal_def)
qed

lemma strip_common_decomp:
  "strip_common xs ys = (up, down) \<Longrightarrow>
   \<exists>c. xs = c @ up \<and> ys = c @ down \<and> (up = [] \<or> down = [] \<or> hd up \<noteq> hd down)"
proof (induction xs ys rule: strip_common.induct)
  case (1 a as b bs)
  show ?case
  proof (cases "a = b")
    case True
    with 1 obtain c where "as = c @ up" "bs = c @ down" "up = [] \<or> down = [] \<or> hd up \<noteq> hd down"
      by auto
    with True have "a # as = (a # c) @ up \<and> b # bs = (a # c) @ down" by simp
    with \<open>up = [] \<or> down = [] \<or> hd up \<noteq> hd down\<close> show ?thesis by blast
  next
    case False
    with 1 show ?thesis by auto
  qed
qed auto

lemma strip_common_prefix:
  assumes "strip_common xs ys = (up, down)"
  shows "up = [] \<longleftrightarrow> prefix xs ys"
proof -
  from strip_common_decomp [OF assms] obtain c where
    c: "xs = c @ up" "ys = c @ down" "up = [] \<or> down = [] \<or> hd up \<noteq> hd down" by blast
  show ?thesis
  proof
    assume "up = []"
    with c show "prefix xs ys" by simp
  next
    assume "prefix xs ys"
    with c have "prefix up down" by simp
    with c(3) show "up = []" by (cases up; cases down) auto
  qed
qed

lemma strip_common_down:
  assumes "strip_common xs ys = ([], down)"
  shows "down = drop (length xs) ys"
  using strip_common_decomp [OF assms] by auto

lemma join_Cons: "join sep (x # xs) = (if xs = [] then x else x @ sep @ join sep xs)"
  by (cases xs) simp_all

lemma join_dotdot: "startsWith (join ''/'' (''..'' # rest)) ''..''"
  by (simp add: join_Cons startsWith_def)

lemma join_relative:
  "\<forall>s \<in> set segs. s \<noteq> [] \<and> CHR ''/'' \<notin> set s \<Longrightarrow> \<not> path_isAbsolute (join ''/'' segs)"
proof (cases segs)
  case Nil
  then show ?thesis by (simp add: path_isAbsolute_def)
next
  case (Cons x xs)
  assume "\<forall>s \<in> set segs. s \<noteq> [] \<and> CHR ''/'' \<notin> set s"
  with Cons obtain h t where "x = h # t" "h \<noteq> CHR ''/''" by (cases x) auto
  with Cons show ?thesis by (simp add: join_Cons path_isAbsolute_def)
qed

lemma path_relative_normal:
  assumes "absolute_normal a" "absolute_normal b"
  shows "path_relative cwd a b =
         (case strip_common (path_segments a) (path_segments b) of
            (up, down) \<Rightarrow> join ''/'' (replicate (length up) ''..'' @ down))"
proof (cases "a = b")
  case True
  have "strip_common xs xs = ([], [])" for xs :: "string list"
    by (induction xs) auto
  with True show ?thesis by (simp add: path_relative_def)
next
  case False
  have "path_resolve cwd [a] = a" "path_resolve cwd [b] = b"
    using resolve_fixed [of a cwd "[]"] resolve_fixed [of b cwd "[]"] assms by simp_all
  with False show ?thesis by (simp add: path_relative_def)
qed

lemma isPathInside_iff:
  assumes "absolute_normal cwd" "absolute_normal r"
  shows "isPathInside cwd r cwd \<longleftrightarrow>
         prefix (path_segments cwd) (path_segments r) \<and>
         \<not> startsWith (join ''/'' (drop (length (path_segments cwd)) (path_segments r))) ''..''"
proof -
  obtain up down where sc: "strip_common (path_segments cwd) (path_segments r) = (up, down)"
    by (cases "strip_common (path_segments cwd) (path_segments r)")
  have rel: "path_relative cwd cwd r = join ''/'' (replicate (length up) ''..'' @ down)"
    using path_relative_normal [OF assms, of cwd] sc by simp
  show ?thesis
  proof (cases up)
    case Nil
    with sc have pre: "prefix (path_segments cwd) (path_segments r)"
      using strip_common_prefix [OF sc] by simp
    from Nil sc have down: "down = drop (length (path_segments cwd)) (path_segments r)"
      using strip_common_down by simp
    have "\<forall>s \<in> set down. s \<noteq> [] \<and> CHR ''/'' \<notin> set s"
      unfolding down by (auto dest: in_set_dropD path_segments_free)
    then have "\<not> path_isAbsolute (join ''/'' down)" by (rule join_relative)
    with Nil pre down rel show ?thesis by (simp add: isPathInside_def)
  next
    case (Cons u us)
    then have "\<not> prefix (path_segments cwd) (path_segments r)"
      using strip_common_prefix [OF sc] by simp
    moreover have "startsWith (path_relative cwd cwd r) ''..''"
      unfolding rel Cons using join_dotdot by simp
    ultimately show ?thesis by (simp add: isPathInside_def)
  qed
qed

lemma resolveSafe_cases:
  "resolveSafe cwd p b =
     (if isPathInside cwd (path_resolve cwd [b, p]) cwd then Inr (path_resolve cwd [b, p])
      else Inl (UnsafePath p))"
  by (simp add: resolveSafe_def Let_def)

text \<open>
  C2: with the project root \<open>cwd\<close> (an absolute path in normal form, as
  \<open>process.cwd()\<close> returns it), a candidate whose resolution lies outside the root is
  refused with the path-escape error: when the relative path from the root to the
  resolved candidate begins with \<open>..\<close> or is absolute, and whenever the segments of
  the root are not a prefix of the segments of the resolved candidate. A path that
  is returned is the resolved candidate and lies under the root. A candidate that
  resolves to the root, the root itself among them, is accepted.
\<close>

theorem C2_path_escape:
  assumes "absolute_normal cwd"
  shows "(startsWith (path_relative cwd cwd (path_resolve cwd [b, p])) ''..''
            \<or> path_isAbsolute (path_relative cwd cwd (path_resolve cwd [b, p]))
          \<longrightarrow> resolveSafe cwd p b = Inl (UnsafePath p))
       \<and> (\<not> prefix (path_segments cwd) (path_segments (path_resolve cwd [b, p]))
          \<longrightarrow> resolveSafe cwd p b = Inl (UnsafePath p))
       \<and> (\<forall>r. resolveSafe cwd p b = Inr r
          \<longrightarrow> r = path_resolve cwd [b, p] \<and> prefix (path_segments cwd) (path_segments r))
       \<and> (path_resolve cwd [b, p] = cwd \<longrightarrow> resolveSafe cwd p b = Inr cwd)
       \<and> resolveSafe cwd cwd b = Inr cwd"
proof -
  let ?r = "path_resolve cwd [b, p]"
  have abs: "path_isAbsolute cwd" using assms by (rule absolute_normal_isAbsolute)
  have rn: "absolute_normal ?r" using abs by (rule resolve_absolute_normal)
  note inside = isPathInside_iff [OF assms rn]
  have root: "isPathInside cwd cwd cwd" using isPathInside_iff [OF assms assms] by (simp add: startsWith_def)
  have c1: "startsWith (path_relative cwd cwd ?r) ''..'' \<or> path_isAbsolute (path_relative cwd cwd ?r)
            \<longrightarrow> resolveSafe cwd p b = Inl (UnsafePath p)"
    by (auto simp: resolveSafe_cases isPathInside_def)
  have c2: "\<not> prefix (path_segments cwd) (path_segments ?r) \<longrightarrow> resolveSafe cwd p b = Inl (UnsafePath p)"
    using inside by (simp add: resolveSafe_cases)
  have c3: "\<forall>r. resolveSafe cwd p b = Inr r \<longrightarrow> r = ?r \<and> prefix (path_segments cwd) (path_segments r)"
    using inside by (auto simp: resolveSafe_cases split: if_splits)
  have c4: "?r = cwd \<longrightarrow> resolveSafe cwd p b = Inr cwd"
    using root by (simp add: resolveSafe_cases)
  have "path_resolve cwd [b, cwd] = cwd" using resolve_fixed [OF assms, of cwd "[b]"] by simp
  then have c5: "resolveSafe cwd cwd b = Inr cwd"
    using root by (simp add: resolveSafe_cases)
  from c1 c2 c3 c4 c5 show ?thesis by blast
qed

text \<open>
  C9, amended: a path that is absolute, in normal form and inside the root by
  \<open>isPathInside\<close> is returned unchanged, whatever the base directory; so the result of
  a resolution that succeeds resolves to itself again.
\<close>

theorem C9_resolve_idempotent:
  assumes "absolute_normal cwd"
  shows "(absolute_normal q \<and> isPathInside cwd q cwd \<longrightarrow> resolveSafe cwd q b = Inr q)
       \<and> (resolveSafe cwd p b = Inr r \<longrightarrow> resolveSafe cwd r b' = Inr r)"
proof -
  have fixed: "absolute_normal x \<Longrightarrow> isPathInside cwd x cwd \<Longrightarrow> resolveSafe cwd x d = Inr x" for x d
    using resolve_fixed [of x cwd "[d]"] by (simp add: resolveSafe_cases)
  have abs: "path_isAbsolute cwd" using assms by (rule absolute_normal_isAbsolute)
  have "resolveSafe cwd r b' = Inr r" if "resolveSafe cwd p b = Inr r"
  proof -
    from that have r: "r = path_resolve cwd [b, p]" and ins: "isPathInside cwd r cwd"
      by (auto simp: resolveSafe_cases split: if_splits)
    from r have "absolute_normal r" using resolve_absolute_normal [OF abs] by simp
    then show ?thesis using ins by (rule fixed)
  qed
  with fixed show ?thesis by blast
qed

text \<open>
  The theorem at the root \<open>/proj\<close>: a candidate that climbs out of it is refused, the
  root is accepted.
\<close>

theorem C2_path_escape_witness:
  "absolute_normal ''/proj''
   \<and> startsWith (path_relative ''/proj'' ''/proj'' (path_resolve ''/proj'' [''/proj/cfg'', ''../../etc/passwd''])) ''..''
   \<and> \<not> prefix (path_segments ''/proj'') (path_segments (path_resolve ''/proj'' [''/proj/cfg'', ''../../etc/passwd'']))
   \<and> resolveSafe ''/proj'' ''../../etc/passwd'' ''/proj/cfg'' = Inl (UnsafePath ''../../etc/passwd'')
   \<and> resolveSafe ''/proj'' ''/proj'' ''/proj/cfg'' = Inr ''/proj''"
proof -
  have root: "absolute_normal ''/proj''" by code_simp
  have up: "startsWith (path_relative ''/proj'' ''/proj'' (path_resolve ''/proj'' [''/proj/cfg'', ''../../etc/passwd''])) ''..''"
    by code_simp
  have out: "\<not> prefix (path_segments ''/proj'') (path_segments (path_resolve ''/proj'' [''/proj/cfg'', ''../../etc/passwd'']))"
    by code_simp
  from C2_path_escape [OF root, of "''/proj/cfg''" "''../../etc/passwd''"] root up out
  show ?thesis by blast
qed

text \<open>
  C9 as stated fails: \<open>/proj/a/\<close> is absolute and inside the root \<open>/proj\<close>, and its
  resolution is \<open>/proj/a\<close>, not the path itself.
\<close>

theorem C9_unchanged_counterexample:
  "absolute_normal ''/proj''
   \<and> path_isAbsolute ''/proj/a/''
   \<and> isPathInside ''/proj'' ''/proj/a/'' ''/proj''
   \<and> resolveSafe ''/proj'' ''/proj/a/'' ''/proj'' = Inr ''/proj/a''
   \<and> resolveSafe ''/proj'' ''/proj/a/'' ''/proj'' \<noteq> Inr ''/proj/a/''"
  by code_simp

text \<open>The amended C9 at the root \<open>/proj\<close>.\<close>

theorem C9_resolve_idempotent_witness:
  "absolute_normal ''/proj''
   \<and> absolute_normal ''/proj/dist/app.css'' \<and> isPathInside ''/proj'' ''/proj/dist/app.css'' ''/proj''
   \<and> resolveSafe ''/proj'' ''/proj/dist/app.css'' ''/proj/cfg'' = Inr ''/proj/dist/app.css''
   \<and> resolveSafe ''/proj'' ''../dist//app.css'' ''/proj/cfg'' = Inr ''/proj/dist/app.css''
   \<and> resolveSafe ''/proj'' ''/proj/dist/app.css'' ''/elsewhere'' = Inr ''/proj/dist/app.css''"
proof -
  have root: "absolute_normal ''/proj''" by code_simp
  have q: "absolute_normal ''/proj/dist/app.css'' \<and> isPathInside ''/proj'' ''/proj/dist/app.css'' ''/proj''"
    by code_simp
  have p: "resolveSafe ''/proj'' ''../dist//app.css'' ''/proj/cfg'' = Inr ''/proj/dist/app.css''"
    by code_simp
  from C9_resolve_idempotent [OF root, of "''/proj/dist/app.css''" "''/proj/cfg''" "''../dist//app.css''"
      "''/proj/dist/app.css''" "''/elsewhere''"] root q p
  show ?thesis by blast
qed

subsection \<open>Output normalization\<close>

lemma join_snoc:
  "join sep (xs @ [x]) = (if xs = [] then x else join sep xs @ sep @ x)"
  by (induction sep xs rule: join.induct) auto

lemma join_clean_not_Nil:
  "list_all clean_segment segs \<Longrightarrow> segs \<noteq> [] \<Longrightarrow> join ''/'' segs \<noteq> []"
  by (cases segs) (auto simp: join_Cons clean_segment_def)

lemma basename_rendered:
  assumes "clean_segment n"
  shows "path_basename (pre @ CHR ''/'' # n) = n"
proof -
  from assms obtain h t where n: "rev n = h # t" "h \<noteq> CHR ''/''"
    by (cases "rev n") (auto simp: clean_segment_def)
  have noslash: "\<And>c. c \<in> set (rev n) \<Longrightarrow> c \<noteq> CHR ''/''"
    using assms by (auto simp: clean_segment_def)
  have "dropWhile (\<lambda>c. c = CHR ''/'') (rev (pre @ CHR ''/'' # n)) = rev n @ CHR ''/'' # rev pre"
    using n by simp
  moreover have "takeWhile (\<lambda>c. c \<noteq> CHR ''/'') (rev n @ CHR ''/'' # rev pre) = rev n"
    using noslash by (simp add: takeWhile_tail)
  ultimately show ?thesis by (simp add: path_basename_def)
qed

lemma dirname_rendered:
  assumes "clean_segment n" "list_all clean_segment ss"
  shows "path_dirname (CHR ''/'' # join ''/'' (ss @ [n])) = CHR ''/'' # join ''/'' ss"
proof -
  from assms obtain h t where n: "rev n = h # t" "h \<noteq> CHR ''/''"
    by (cases "rev n") (auto simp: clean_segment_def)
  have noslash: "\<And>c. c \<in> set (rev n) \<Longrightarrow> c \<noteq> CHR ''/''"
    using assms by (auto simp: clean_segment_def)
  show ?thesis
  proof (cases "ss = []")
    case True
    have d1: "dropWhile (\<lambda>c. c = CHR ''/'') (rev n) = rev n" using n by simp
    have d2: "dropWhile (\<lambda>c. c \<noteq> CHR ''/'') (rev n) = []" using noslash by simp
    show ?thesis using True by (simp add: path_dirname_def d1 d2)
  next
    case False
    then have ne: "join ''/'' ss \<noteq> []" using assms(2) by (simp add: join_clean_not_Nil)
    have d1: "dropWhile (\<lambda>c. c = CHR ''/'') (rev n @ CHR ''/'' # rev (join ''/'' ss))
            = rev n @ CHR ''/'' # rev (join ''/'' ss)" using n by simp
    have d2: "dropWhile (\<lambda>c. c \<noteq> CHR ''/'') (rev n @ CHR ''/'' # rev (join ''/'' ss))
            = CHR ''/'' # rev (join ''/'' ss)"
      using dropWhile_append2 [of "rev n" "\<lambda>c. c \<noteq> CHR ''/''" "CHR ''/'' # rev (join ''/'' ss)"] noslash
      by simp
    show ?thesis using False ne by (simp add: path_dirname_def join_snoc d1 d2)
  qed
qed

lemma path_join_rendered:
  assumes "list_all clean_segment ds" "clean_segment n"
  shows "path_join [CHR ''/'' # join ''/'' ds, n] = CHR ''/'' # join ''/'' (ds @ [n])"
proof -
  let ?p = "(CHR ''/'' # join ''/'' ds) @ CHR ''/'' # n"
  from assms(2) have n: "n \<noteq> []" "last n \<noteq> CHR ''/''"
    by (metis clean_segment_def, metis clean_segment_def last_in_set)
  have plain: "\<forall>s \<in> set ds. s \<noteq> [] \<and> CHR ''/'' \<notin> set s"
    using assms(1) by (rule clean_segments_plain)
  have "path_segments ?p = ds @ [n]"
    using path_segments_append [of "CHR ''/'' # join ''/'' ds" n] path_segments_slash_join [OF plain]
          path_segments_single [of n] assms(2)
    by (simp add: clean_segment_def)
  moreover have "list_all clean_segment (ds @ [n])" using assms by simp
  ultimately have norm: "normalizeString ?p False = join ''/'' (ds @ [n])"
    by (simp add: normalizeString_segments normalize_segs_clean)
  have ne: "join ''/'' (ds @ [n]) \<noteq> []" using n by (simp add: join_snoc)
  have "path_join [CHR ''/'' # join ''/'' ds, n] = path_normalize ?p"
    using n by (simp add: path_join_def)
  also have "\<dots> = CHR ''/'' # join ''/'' (ds @ [n])"
    using n norm ne by (simp add: path_normalize_def path_isAbsolute_def Let_def)
  finally show ?thesis .
qed

lemma path_join_root_only:
  assumes "list_all clean_segment ds"
  shows "path_join [CHR ''/'' # join ''/'' ds, []] = CHR ''/'' # join ''/'' ds"
proof -
  let ?p = "CHR ''/'' # join ''/'' ds"
  have plain: "\<forall>s \<in> set ds. s \<noteq> [] \<and> CHR ''/'' \<notin> set s"
    using assms by (rule clean_segments_plain)
  have norm: "normalizeString ?p False = join ''/'' ds"
    using path_segments_slash_join [OF plain] assms
    by (simp add: normalizeString_segments normalize_segs_clean)
  have last: "ds \<noteq> [] \<Longrightarrow> last (join ''/'' ds) \<noteq> CHR ''/''"
  proof -
    assume "ds \<noteq> []"
    then obtain ss n where ds: "ds = ss @ [n]" by (cases ds rule: rev_cases) auto
    with assms have "clean_segment n" by simp
    then have "n \<noteq> []" "last n \<noteq> CHR ''/''"
      by (metis clean_segment_def, metis clean_segment_def last_in_set)
    with ds show ?thesis by (simp add: join_snoc)
  qed
  show ?thesis
  proof (cases "ds = []")
    case True
    then show ?thesis by (simp add: path_join_def path_normalize_def path_isAbsolute_def normalizeString_def)
  next
    case False
    with assms have ne: "join ''/'' ds \<noteq> []" by (simp add: join_clean_not_Nil)
    with norm last [OF False] show ?thesis
      by (simp add: path_join_def path_normalize_def path_isAbsolute_def Let_def)
  qed
qed

lemma joinOut_no_destination:
  assumes "path_isAbsolute cwd" "\<not> truthy destDir"
  shows "joinOut cwd outFile destDir baseDir = path_resolve cwd [baseDir, outFile]"
proof -
  let ?os = "resolve_segs cwd [baseDir, outFile]"
  have r: "path_resolve cwd [baseDir, outFile] = CHR ''/'' # join ''/'' ?os"
    using assms(1) by (rule path_resolve_segs)
  have clean: "list_all clean_segment ?os" by (rule resolve_segs_clean)
  show ?thesis
  proof (cases ?os rule: rev_cases)
    case Nil
    then show ?thesis using assms(2) r
      by (simp add: joinOut_def path_basename_def path_dirname_def path_join_def
            path_normalize_def path_isAbsolute_def normalizeString_def)
  next
    case (snoc ss n)
    with clean have c: "list_all clean_segment ss" "clean_segment n" by simp_all
    have base: "path_basename (CHR ''/'' # join ''/'' (ss @ [n])) = n"
      using basename_rendered [OF c(2), of "[]"] basename_rendered [OF c(2), of "CHR ''/'' # join ''/'' ss"]
      by (simp add: join_snoc)
    have dir: "path_dirname (CHR ''/'' # join ''/'' (ss @ [n])) = CHR ''/'' # join ''/'' ss"
      using c by (simp add: dirname_rendered)
    show ?thesis using assms(2) r snoc base dir path_join_rendered [OF c]
      by (simp add: joinOut_def)
  qed
qed

lemma joinOut_destination:
  assumes "path_isAbsolute cwd" "truthy destDir" "path_resolve cwd [baseDir, outFile] \<noteq> ''/''"
  shows "path_dirname (joinOut cwd outFile destDir baseDir) = path_resolve cwd [baseDir, the destDir]
       \<and> path_basename (joinOut cwd outFile destDir baseDir) = path_basename (path_resolve cwd [baseDir, outFile])"
proof -
  let ?os = "resolve_segs cwd [baseDir, outFile]"
  let ?ds = "resolve_segs cwd [baseDir, the destDir]"
  have r: "path_resolve cwd [baseDir, outFile] = CHR ''/'' # join ''/'' ?os"
    using assms(1) by (rule path_resolve_segs)
  have d: "path_resolve cwd [baseDir, the destDir] = CHR ''/'' # join ''/'' ?ds"
    using assms(1) by (rule path_resolve_segs)
  have clean: "list_all clean_segment ?os" "list_all clean_segment ?ds"
    by (rule resolve_segs_clean)+
  from assms(3) r have "?os \<noteq> []" by auto
  then obtain ss n where snoc: "?os = ss @ [n]" by (cases ?os rule: rev_cases) auto
  with clean have c: "list_all clean_segment ss" "clean_segment n" by simp_all
  have base: "path_basename (CHR ''/'' # join ''/'' (ss @ [n])) = n"
    using basename_rendered [OF c(2), of "[]"] basename_rendered [OF c(2), of "CHR ''/'' # join ''/'' ss"]
    by (simp add: join_snoc)
  have out: "joinOut cwd outFile destDir baseDir = CHR ''/'' # join ''/'' (?ds @ [n])"
    using assms(2) r d snoc base path_join_rendered [OF clean(2) c(2)] by (simp add: joinOut_def)
  have "path_dirname (CHR ''/'' # join ''/'' (?ds @ [n])) = CHR ''/'' # join ''/'' ?ds"
    using c(2) clean(2) by (rule dirname_rendered)
  moreover have "path_basename (CHR ''/'' # join ''/'' (?ds @ [n])) = n"
    using basename_rendered [OF c(2), of "[]"] basename_rendered [OF c(2), of "CHR ''/'' # join ''/'' ?ds"]
    by (simp add: join_snoc)
  ultimately show ?thesis using out d r snoc base by simp
qed

text \<open>
  C7: \<open>joinOut\<close> resolves the output path against the base directory and takes its
  file name. With a destination override (and an output path that has a file name)
  the result is that file name inside the override directory, itself resolved against
  the same base: the directory of the result is the resolved override and its file
  name is the file name of the resolved output. Without an override the result is the
  resolved output path. For the output \<open>dist/app.css\<close> and the override \<open>public/css\<close>
  under \<open>/root\<close> the result is \<open>/root/public/css/app.css\<close> and not
  \<open>/root/dist/public/css/app.css\<close>.
\<close>

theorem C7_output_normalization:
  assumes "path_isAbsolute root"
  shows "(truthy destDir \<and> path_resolve root [baseDir, outFile] \<noteq> ''/'' \<longrightarrow>
            path_dirname (joinOut root outFile destDir baseDir) = path_resolve root [baseDir, the destDir]
          \<and> path_basename (joinOut root outFile destDir baseDir)
              = path_basename (path_resolve root [baseDir, outFile]))
       \<and> (\<not> truthy destDir \<longrightarrow> joinOut root outFile destDir baseDir = path_resolve root [baseDir, outFile])
       \<and> joinOut ''/root'' ''dist/app.css'' (Some ''public/css'') ''/root'' = ''/root/public/css/app.css''
       \<and> joinOut ''/root'' ''dist/app.css'' (Some ''public/css'') ''/root'' \<noteq> ''/root/dist/public/css/app.css''"
proof -
  have ex: "joinOut ''/root'' ''dist/app.css'' (Some ''public/css'') ''/root'' = ''/root/public/css/app.css''"
    by code_simp
  from joinOut_destination [OF assms] joinOut_no_destination [OF assms] ex
  show ?thesis by simp
qed

text \<open>
  The theorem on the paths \<open>packr\<close> passes to \<open>joinOut\<close>, which are absolute already,
  with and without an override.
\<close>

theorem C7_output_normalization_witness:
  "path_isAbsolute ''/root'' \<and> truthy (Some ''/root/public/css'')
   \<and> path_resolve ''/root'' [''/root'', ''/root/dist/app.css''] \<noteq> ''/''
   \<and> path_dirname (joinOut ''/root'' ''/root/dist/app.css'' (Some ''/root/public/css'') ''/root'') = ''/root/public/css''
   \<and> path_basename (joinOut ''/root'' ''/root/dist/app.css'' (Some ''/root/public/css'') ''/root'') = ''app.css''
   \<and> joinOut ''/root'' ''/root/dist/app.css'' (Some ''/root/public/css'') ''/root'' = ''/root/public/css/app.css''
   \<and> \<not> truthy None
   \<and> joinOut ''/root'' ''/root/dist/app.css'' None ''/root'' = ''/root/dist/app.css''"
proof -
  have h: "path_isAbsolute ''/root''" by code_simp
  have t: "truthy (Some ''/root/public/css'') \<and> \<not> truthy None" by code_simp
  have n: "path_resolve ''/root'' [''/root'', ''/root/dist/app.css''] \<noteq> ''/''" by code_simp
  have v: "path_resolve ''/root'' [''/root'', the (Some ''/root/public/css'')] = ''/root/public/css''
           \<and> path_basename (path_resolve ''/root'' [''/root'', ''/root/dist/app.css'']) = ''app.css''
           \<and> path_resolve ''/root'' [''/root'', ''/root/dist/app.css''] = ''/root/dist/app.css''
           \<and> path_basename ''/root/dist/app.css'' = ''app.css''" by code_simp
  have j: "joinOut ''/root'' ''/root/dist/app.css'' (Some ''/root/public/css'') ''/root'' = ''/root/public/css/app.css''"
    by code_simp
  from C7_output_normalization [OF h, of "Some ''/root/public/css''" "''/root''" "''/root/dist/app.css''"]
       C7_output_normalization [OF h, of "None" "''/root''" "''/root/dist/app.css''"] h t n v j
  show ?thesis by simp
qed

subsection \<open>Loading the environment files\<close>

lemma env_get_set:
  "env_get (env_set k v e) = (if k = [] then env_get e else (env_get e)(k \<mapsto> v))"
  by (rule ext) (simp add: env_get_def env_set_def update_conv')

lemma env_get_load_line_override:
  "env_get (load_line True line e) =
     (case line_value line of None \<Rightarrow> env_get e | Some (k, v) \<Rightarrow> (env_get e)(k \<mapsto> v))"
  by (auto simp: load_line_def line_value_def env_get_set split: option.splits)

lemma fold_override_lines:
  "env_get (fold (load_line True) ls e) = env_get e ++ map_of (rev (List.map_filter line_value ls))"
proof (induction ls arbitrary: e)
  case Nil
  then show ?case by (simp add: map_filter_simps)
next
  case (Cons l ls)
  show ?case
  proof (cases "line_value l")
    case None
    with Cons show ?thesis by (simp add: map_filter_simps env_get_load_line_override)
  next
    case (Some kv)
    obtain k v where kv: "kv = (k, v)" by (cases kv)
    let ?M = "map_of (rev (List.map_filter line_value ls))"
    have one: "env_get (load_line True l e) = (env_get e)(k \<mapsto> v)"
      using Some kv by (simp only: env_get_load_line_override option.case prod.case)
    have "env_get (fold (load_line True) (l # ls) e) = env_get (load_line True l e) ++ ?M"
      using Cons [of "load_line True l e"] by simp
    also have "\<dots> = (env_get e)(k \<mapsto> v) ++ ?M"
      by (simp only: one)
    also have "\<dots> = env_get e ++ ([k \<mapsto> v] ++ ?M)"
      by (rule ext) (auto simp: map_add_def split: option.splits)
    also have "[k \<mapsto> v] ++ ?M = map_of (rev (List.map_filter line_value (l # ls)))"
      using Some kv by (simp add: map_filter_simps)
    finally show ?thesis .
  qed
qed

lemma loadEnvFromFile_passes:
  "file_passes fs path e \<Longrightarrow>
   loadEnvFromFile fs path ov e = (fold (load_line ov) (lines_at fs path) e, None)"
  by (auto simp: loadEnvFromFile_def file_passes_def lines_at_def split: option.splits)

lemma loadEnvFromFile_refused:
  "\<not> file_passes fs path e \<Longrightarrow> loadEnvFromFile fs path ov e = (e, Some (InsecurePermissions path))"
  by (auto simp: loadEnvFromFile_def file_passes_def split: option.splits)

lemma load_line_keep:
  assumes "env_has k e" "\<forall>key val. parse_line line = Some (key, val) \<longrightarrow> trim key = key"
  shows "env_get (load_line False line e) k = env_get e k \<and> env_has k (load_line False line e)"
proof (cases "parse_line line")
  case None
  with assms show ?thesis by (simp add: load_line_def)
next
  case (Some kv)
  obtain key val where kv: "kv = (key, val)" by (cases kv)
  with Some assms(2) have plain: "trim key = key" by simp
  show ?thesis
  proof (cases "env_has key e")
    case True
    with Some kv assms show ?thesis by (simp add: load_line_def)
  next
    case False
    with assms(1) have "key \<noteq> k" by auto
    with Some kv False plain assms(1) show ?thesis
      by (auto simp: load_line_def env_get_def env_has_def env_set_def update_conv')
  qed
qed

lemma fold_keep:
  "env_has k e \<Longrightarrow>
   \<forall>line \<in> set ls. \<forall>key val. parse_line line = Some (key, val) \<longrightarrow> trim key = key \<Longrightarrow>
   env_get (fold (load_line False) ls e) k = env_get e k"
proof (induction ls arbitrary: e)
  case Nil
  then show ?case by simp
next
  case (Cons l ls)
  from Cons.prems have step: "env_get (load_line False l e) k = env_get e k \<and> env_has k (load_line False l e)"
    by (intro load_line_keep) auto
  with Cons.IH [of "load_line False l e"] Cons.prems(2) show ?case by simp
qed

lemma base_loaded_keep:
  assumes "plain_keys fs ''.env''" "env_has k e0"
  shows "env_get (base_loaded fs e0) k = env_get e0 k"
proof -
  from assms(1) have "\<forall>line \<in> set (lines_at fs ''.env''). \<forall>key val. parse_line line = Some (key, val) \<longrightarrow> trim key = key"
    by (auto simp: plain_keys_def list_all_iff)
  with assms(2) show ?thesis unfolding base_loaded_def by (rule fold_keep)
qed

lemma mode_loaded_values:
  "env_get (mode_loaded fs e0) = env_get (base_loaded fs e0) ++ map_of (rev (values_at fs (mode_file fs e0)))"
  by (simp add: mode_loaded_def values_at_def fold_override_lines)

lemma nodeEnv_development_passes:
  "nodeEnv_of e = ''development'' \<Longrightarrow> file_passes fs path e"
  by (auto simp: nodeEnv_of_def file_passes_def truthy_def split: option.splits if_splits)

lemma production_checks_missing:
  assumes "key \<in> set requiredVars" "\<not> truthy (env_get e key)"
  shows "\<exists>missing. production_checks e = Some (MissingEnvironment missing) \<and> key \<in> set missing"
proof -
  let ?missing = "filter (\<lambda>key. \<not> truthy (env_get e key)) requiredVars"
  from assms have m: "key \<in> set ?missing" by simp
  then have ne: "?missing \<noteq> []" by (metis empty_iff empty_set)
  have "production_checks e = Some (MissingEnvironment ?missing)"
    using ne by (simp only: production_checks_def Let_def if_True simp_thms)
  with m show ?thesis by (intro exI conjI)
qed

text \<open>
  C8, amended: \<open>loadEnvFiles\<close> loads the base file first, without override, and then
  the file of the runtime mode, with override. A file is read only when it passes the
  permission check: in production mode a file whose permission bits are not 0600 ends
  loading with an error before it is read, with the environment as it is then. When
  both files pass and no local file is loaded, the environment at the end is the one
  after the base file with the file of the runtime mode loaded over it, and loading
  ends without an error, except in production mode, where it ends with the result of
  the production checks: an error that names the missing ones when one of the four
  required variables is missing or empty. A variable that the \<open>in\<close> operator finds
  before is kept by the
  base file when the keys of the base file are written without white space before the
  equals sign. The values of the file of the runtime mode replace the ones that are
  there. So with \<open>.env\<close> setting \<open>FOO=1\<close> and \<open>.env-production\<close> setting \<open>FOO=2\<close>, both
  with the permission bits 0600, in production mode with the four required variables
  set, loading ends without an error and \<open>FOO\<close> is 2; without the required variables
  \<open>FOO\<close> is 2 as well and loading ends with the error that names the four.
\<close>

theorem C8_load_order:
  "(\<not> file_passes fs ''.env'' e0 \<longrightarrow>
      loadEnvFiles fs e0 = (e0, Some (InsecurePermissions ''.env'')))
   \<and> (file_passes fs ''.env'' e0 \<and> \<not> file_passes fs (mode_file fs e0) (base_loaded fs e0) \<longrightarrow>
      loadEnvFiles fs e0 = (base_loaded fs e0, Some (InsecurePermissions (mode_file fs e0))))
   \<and> (file_passes fs ''.env'' e0 \<and> file_passes fs (mode_file fs e0) (base_loaded fs e0)
        \<and> (nodeEnv_of (base_loaded fs e0) = ''development'' \<longrightarrow> fs ''.env-local'' = None) \<longrightarrow>
      loadEnvFiles fs e0 =
        (mode_loaded fs e0,
         if nodeEnv_of (base_loaded fs e0) = ''production''
         then production_checks (mode_loaded fs e0) else None))
   \<and> (plain_keys fs ''.env'' \<and> env_has k e0 \<longrightarrow> env_get (base_loaded fs e0) k = env_get e0 k)
   \<and> env_get (mode_loaded fs e0)
       = env_get (base_loaded fs e0) ++ map_of (rev (values_at fs (mode_file fs e0)))
   \<and> (file_passes fs ''.env'' e0 \<and> file_passes fs (mode_file fs e0) (base_loaded fs e0)
        \<and> nodeEnv_of (base_loaded fs e0) = ''production''
        \<and> key \<in> set [''PACKR_SCSS_INPUT'', ''PACKR_SCSS_OUTPUT'', ''PACKR_JS_INPUT'', ''PACKR_JS_OUTPUT'']
        \<and> \<not> truthy (env_get (mode_loaded fs e0) key) \<longrightarrow>
      (\<exists>missing. snd (loadEnvFiles fs e0) = Some (MissingEnvironment missing) \<and> key \<in> set missing))
   \<and> loadEnvFiles fs_production env_production = (env_production @ [(''FOO'', ''2'')], None)
   \<and> env_get (fst (loadEnvFiles fs_production env_production)) ''FOO'' = Some ''2''
   \<and> loadEnvFiles fs_production [(''NODE_ENV'', ''production'')]
       = ([(''NODE_ENV'', ''production''), (''FOO'', ''2'')],
          Some (MissingEnvironment
                  [''PACKR_SCSS_INPUT'', ''PACKR_SCSS_OUTPUT'', ''PACKR_JS_INPUT'', ''PACKR_JS_OUTPUT'']))"
proof -
  have example'': "loadEnvFiles fs_production [(''NODE_ENV'', ''production'')]
       = ([(''NODE_ENV'', ''production''), (''FOO'', ''2'')],
          Some (MissingEnvironment
                  [''PACKR_SCSS_INPUT'', ''PACKR_SCSS_OUTPUT'', ''PACKR_JS_INPUT'', ''PACKR_JS_OUTPUT'']))"
    by code_simp
  have example: "loadEnvFiles fs_production env_production = (env_production @ [(''FOO'', ''2'')], None)"
    by code_simp
  have example': "env_get (fst (loadEnvFiles fs_production env_production)) ''FOO'' = Some ''2''"
    by code_simp
  have c1: "\<not> file_passes fs ''.env'' e0 \<longrightarrow>
      loadEnvFiles fs e0 = (e0, Some (InsecurePermissions ''.env''))"
    by (simp add: loadEnvFiles_def loadEnvFromFile_refused)
  have s1: "loadEnvFromFile fs ''.env'' False e0 = (base_loaded fs e0, None)"
    if "file_passes fs ''.env'' e0"
    using loadEnvFromFile_passes [OF that] by (simp add: base_loaded_def)
  have c2: "file_passes fs ''.env'' e0 \<and> \<not> file_passes fs (mode_file fs e0) (base_loaded fs e0) \<longrightarrow>
      loadEnvFiles fs e0 = (base_loaded fs e0, Some (InsecurePermissions (mode_file fs e0)))"
  proof (intro impI, elim conjE)
    assume base: "file_passes fs ''.env'' e0"
       and mode: "\<not> file_passes fs (mode_file fs e0) (base_loaded fs e0)"
    have s2: "loadEnvFromFile fs (''.env-'' @ nodeEnv_of (base_loaded fs e0)) True (base_loaded fs e0)
              = (base_loaded fs e0, Some (InsecurePermissions (''.env-'' @ nodeEnv_of (base_loaded fs e0))))"
      using loadEnvFromFile_refused [OF mode] by (simp add: mode_file_def)
    show "loadEnvFiles fs e0 = (base_loaded fs e0, Some (InsecurePermissions (mode_file fs e0)))"
      using s2 by (auto simp: loadEnvFiles_def s1 [OF base] Let_def mode_file_def)
  qed
  have c3: "file_passes fs ''.env'' e0 \<and> file_passes fs (mode_file fs e0) (base_loaded fs e0)
        \<and> (nodeEnv_of (base_loaded fs e0) = ''development'' \<longrightarrow> fs ''.env-local'' = None) \<longrightarrow>
      loadEnvFiles fs e0 =
        (mode_loaded fs e0,
         if nodeEnv_of (base_loaded fs e0) = ''production''
         then production_checks (mode_loaded fs e0) else None)"
  proof (intro impI, elim conjE)
    assume base: "file_passes fs ''.env'' e0"
       and mode: "file_passes fs (mode_file fs e0) (base_loaded fs e0)"
       and nolocal: "nodeEnv_of (base_loaded fs e0) = ''development'' \<longrightarrow> fs ''.env-local'' = None"
    have s2: "loadEnvFromFile fs (''.env-'' @ nodeEnv_of (base_loaded fs e0)) True (base_loaded fs e0)
              = (mode_loaded fs e0, None)"
      using loadEnvFromFile_passes [OF mode] by (simp add: mode_loaded_def mode_file_def)
    show "loadEnvFiles fs e0 =
        (mode_loaded fs e0,
         if nodeEnv_of (base_loaded fs e0) = ''production''
         then production_checks (mode_loaded fs e0) else None)"
      using nolocal s2 by (auto simp: loadEnvFiles_def s1 [OF base] Let_def)
  qed
  have c4: "plain_keys fs ''.env'' \<and> env_has k e0 \<longrightarrow> env_get (base_loaded fs e0) k = env_get e0 k"
    using base_loaded_keep [of fs k e0] by simp
  have c5: "file_passes fs ''.env'' e0 \<and> file_passes fs (mode_file fs e0) (base_loaded fs e0)
        \<and> nodeEnv_of (base_loaded fs e0) = ''production''
        \<and> key \<in> set [''PACKR_SCSS_INPUT'', ''PACKR_SCSS_OUTPUT'', ''PACKR_JS_INPUT'', ''PACKR_JS_OUTPUT'']
        \<and> \<not> truthy (env_get (mode_loaded fs e0) key) \<longrightarrow>
      (\<exists>missing. snd (loadEnvFiles fs e0) = Some (MissingEnvironment missing) \<and> key \<in> set missing)"
  proof (intro impI, elim conjE)
    assume base: "file_passes fs ''.env'' e0"
       and mode: "file_passes fs (mode_file fs e0) (base_loaded fs e0)"
       and prod: "nodeEnv_of (base_loaded fs e0) = ''production''"
       and key: "key \<in> set [''PACKR_SCSS_INPUT'', ''PACKR_SCSS_OUTPUT'', ''PACKR_JS_INPUT'', ''PACKR_JS_OUTPUT'']"
       and unset: "\<not> truthy (env_get (mode_loaded fs e0) key)"
    from prod have nolocal: "nodeEnv_of (base_loaded fs e0) = ''development'' \<longrightarrow> fs ''.env-local'' = None"
      by simp
    from c3 base mode nolocal prod
    have "snd (loadEnvFiles fs e0) = production_checks (mode_loaded fs e0)" by simp
    moreover from key have "key \<in> set requiredVars" by (simp only: requiredVars_def)
    ultimately show "\<exists>missing. snd (loadEnvFiles fs e0) = Some (MissingEnvironment missing) \<and> key \<in> set missing"
      using production_checks_missing [OF _ unset] by simp
  qed
  from c1 c2 c3 c4 mode_loaded_values [of fs e0] c5 example example' example''
  show ?thesis by (intro conjI)
qed

text \<open>
  C5: in development mode with a local file that is present (and is loaded: the base
  file and the local file pass the permission check, which they do as long as the
  runtime mode is not production), loading ends without an error; every variable
  other than \<open>PACKR_SOURCEMAP\<close> has the value the local file gives it, and the value it
  had after the file of the runtime mode when the local file does not name it; and
  when \<open>PACKR_SOURCEMAP\<close> was set after the file of the runtime mode, it still has that
  value at the end, whatever the local file says.
\<close>

theorem C5_local_keeps_sourcemap:
  assumes base: "file_passes fs ''.env'' e0"
      and dev: "nodeEnv_of (base_loaded fs e0) = ''development''"
      and present: "fs ''.env-local'' \<noteq> None"
      and local: "file_passes fs ''.env-local'' (mode_loaded fs e0)"
  shows "snd (loadEnvFiles fs e0) = None
       \<and> (\<forall>k. k \<noteq> ''PACKR_SOURCEMAP'' \<longrightarrow>
              env_get (fst (loadEnvFiles fs e0)) k
              = (env_get (mode_loaded fs e0) ++ map_of (rev (values_at fs ''.env-local''))) k)
       \<and> (\<forall>k v. k \<noteq> ''PACKR_SOURCEMAP'' \<and> map_of (rev (values_at fs ''.env-local'')) k = Some v \<longrightarrow>
              env_get (fst (loadEnvFiles fs e0)) k = Some v)
       \<and> (\<forall>v. env_get (mode_loaded fs e0) ''PACKR_SOURCEMAP'' = Some v \<longrightarrow>
              env_get (fst (loadEnvFiles fs e0)) ''PACKR_SOURCEMAP'' = Some v)"
proof -
  let ?e2 = "mode_loaded fs e0"
  let ?e3 = "fold (load_line True) (lines_at fs ''.env-local'') ?e2"
  have s1: "loadEnvFromFile fs ''.env'' False e0 = (base_loaded fs e0, None)"
    using loadEnvFromFile_passes [OF base] by (simp add: base_loaded_def)
  have mode: "file_passes fs (mode_file fs e0) (base_loaded fs e0)"
    using dev by (rule nodeEnv_development_passes)
  have s2: "loadEnvFromFile fs ''.env-development'' True (base_loaded fs e0) = (?e2, None)"
    using loadEnvFromFile_passes [OF mode] dev by (simp add: mode_loaded_def mode_file_def)
  have s3: "loadEnvFromFile fs ''.env-local'' True ?e2 = (?e3, None)"
    using local by (rule loadEnvFromFile_passes)
  have e3: "env_get ?e3 = env_get ?e2 ++ map_of (rev (values_at fs ''.env-local''))"
    by (simp add: values_at_def fold_override_lines)
  have res: "loadEnvFiles fs e0 =
        (case env_get ?e2 ''PACKR_SOURCEMAP'' of None \<Rightarrow> ?e3 | Some v \<Rightarrow> env_set ''PACKR_SOURCEMAP'' v ?e3, None)"
    using dev present s2
    by (simp add: loadEnvFiles_def load_local_def s1 s3 Let_def split: option.splits)
  show ?thesis
  proof (cases "env_get ?e2 ''PACKR_SOURCEMAP''")
    case None
    with res e3 show ?thesis by simp
  next
    case (Some v)
    with res e3 show ?thesis by (simp add: env_get_set)
  qed
qed

text \<open>
  C8 on the files of the example: with the permission bits 0600 and the required
  variables set, loading succeeds with \<open>FOO\<close> at 2 and \<open>NODE_ENV\<close> kept; with 0644 on
  both files it stops at \<open>.env\<close>; with 0644 on \<open>.env-production\<close> only it stops there,
  after the base file has set \<open>FOO\<close> to 1.
\<close>

theorem C8_load_order_witness:
  "file_passes fs_production ''.env'' env_production
   \<and> file_passes fs_production (mode_file fs_production env_production)
         (base_loaded fs_production env_production)
   \<and> plain_keys fs_production ''.env'' \<and> env_has ''NODE_ENV'' env_production
   \<and> loadEnvFiles fs_production env_production = (env_production @ [(''FOO'', ''2'')], None)
   \<and> env_get (base_loaded fs_production env_production) ''NODE_ENV'' = Some ''production''
   \<and> \<not> file_passes fs_production_644 ''.env'' [(''NODE_ENV'', ''production'')]
   \<and> loadEnvFiles fs_production_644 [(''NODE_ENV'', ''production'')]
       = ([(''NODE_ENV'', ''production'')], Some (InsecurePermissions ''.env''))
   \<and> file_passes fs_production_mode_644 ''.env'' env_production
   \<and> \<not> file_passes fs_production_mode_644 (mode_file fs_production_mode_644 env_production)
         (base_loaded fs_production_mode_644 env_production)
   \<and> loadEnvFiles fs_production_mode_644 env_production
       = (env_production @ [(''FOO'', ''1'')], Some (InsecurePermissions ''.env-production''))
   \<and> file_passes fs_production ''.env'' [(''NODE_ENV'', ''production'')]
   \<and> nodeEnv_of (base_loaded fs_production [(''NODE_ENV'', ''production'')]) = ''production''
   \<and> \<not> truthy (env_get (mode_loaded fs_production [(''NODE_ENV'', ''production'')]) ''PACKR_JS_INPUT'')
   \<and> (\<exists>missing. snd (loadEnvFiles fs_production [(''NODE_ENV'', ''production'')])
                      = Some (MissingEnvironment missing) \<and> ''PACKR_JS_INPUT'' \<in> set missing)"
proof -
  note T1 = C8_load_order [of fs_production env_production "''NODE_ENV''" "''PACKR_JS_INPUT''"]
  note T2 = C8_load_order [of fs_production_644 "[(''NODE_ENV'', ''production'')]" "''NODE_ENV''"
                              "''PACKR_JS_INPUT''"]
  note T3 = C8_load_order [of fs_production_mode_644 env_production "''NODE_ENV''" "''PACKR_JS_INPUT''"]
  note T4 = C8_load_order [of fs_production "[(''NODE_ENV'', ''production'')]" "''NODE_ENV''"
                              "''PACKR_JS_INPUT''"]
  have m1: "file_passes fs_production ''.env'' [(''NODE_ENV'', ''production'')]" by code_simp
  have m2: "file_passes fs_production (mode_file fs_production [(''NODE_ENV'', ''production'')])
              (base_loaded fs_production [(''NODE_ENV'', ''production'')])" by code_simp
  have m3: "nodeEnv_of (base_loaded fs_production [(''NODE_ENV'', ''production'')]) = ''production''"
    by code_simp
  have m4: "''PACKR_JS_INPUT''
              \<in> set [''PACKR_SCSS_INPUT'', ''PACKR_SCSS_OUTPUT'', ''PACKR_JS_INPUT'', ''PACKR_JS_OUTPUT'']"
    by code_simp
  have m5: "\<not> truthy (env_get (mode_loaded fs_production [(''NODE_ENV'', ''production'')]) ''PACKR_JS_INPUT'')"
    by code_simp
  from T4 have e: "file_passes fs_production ''.env'' [(''NODE_ENV'', ''production'')]
        \<and> file_passes fs_production (mode_file fs_production [(''NODE_ENV'', ''production'')])
              (base_loaded fs_production [(''NODE_ENV'', ''production'')])
        \<and> nodeEnv_of (base_loaded fs_production [(''NODE_ENV'', ''production'')]) = ''production''
        \<and> ''PACKR_JS_INPUT''
              \<in> set [''PACKR_SCSS_INPUT'', ''PACKR_SCSS_OUTPUT'', ''PACKR_JS_INPUT'', ''PACKR_JS_OUTPUT'']
        \<and> \<not> truthy (env_get (mode_loaded fs_production [(''NODE_ENV'', ''production'')]) ''PACKR_JS_INPUT'')
        \<longrightarrow>
      (\<exists>missing. snd (loadEnvFiles fs_production [(''NODE_ENV'', ''production'')])
                      = Some (MissingEnvironment missing) \<and> ''PACKR_JS_INPUT'' \<in> set missing)"
    by (elim conjE)
  note r5 = mp [OF e conjI [OF m1 conjI [OF m2 conjI [OF m3 conjI [OF m4 m5]]]]]
  have h1: "file_passes fs_production ''.env'' env_production" by code_simp
  have h2: "file_passes fs_production (mode_file fs_production env_production)
              (base_loaded fs_production env_production)" by code_simp
  have h3: "nodeEnv_of (base_loaded fs_production env_production) = ''development''
              \<longrightarrow> fs_production ''.env-local'' = None" by code_simp
  have h4: "plain_keys fs_production ''.env''" by code_simp
  have h5: "env_has ''NODE_ENV'' env_production" by code_simp
  have v1: "mode_loaded fs_production env_production = env_production @ [(''FOO'', ''2'')]"
    by code_simp
  have v2: "(if nodeEnv_of (base_loaded fs_production env_production) = ''production''
             then production_checks (env_production @ [(''FOO'', ''2'')]) else None) = None"
    by code_simp
  have v3: "env_get env_production ''NODE_ENV'' = Some ''production''" by code_simp
  from T1 have a: "file_passes fs_production ''.env'' env_production
        \<and> file_passes fs_production (mode_file fs_production env_production)
              (base_loaded fs_production env_production)
        \<and> (nodeEnv_of (base_loaded fs_production env_production) = ''development''
              \<longrightarrow> fs_production ''.env-local'' = None) \<longrightarrow>
      loadEnvFiles fs_production env_production =
        (mode_loaded fs_production env_production,
         if nodeEnv_of (base_loaded fs_production env_production) = ''production''
         then production_checks (mode_loaded fs_production env_production) else None)"
    by (elim conjE)
  have r1: "loadEnvFiles fs_production env_production = (env_production @ [(''FOO'', ''2'')], None)"
    using mp [OF a conjI [OF h1 conjI [OF h2 h3]]] by (simp only: v1 v2)
  from T1 have b: "plain_keys fs_production ''.env'' \<and> env_has ''NODE_ENV'' env_production \<longrightarrow>
      env_get (base_loaded fs_production env_production) ''NODE_ENV'' = env_get env_production ''NODE_ENV''"
    by (elim conjE)
  have r2: "env_get (base_loaded fs_production env_production) ''NODE_ENV'' = Some ''production''"
    using mp [OF b conjI [OF h4 h5]] by (simp only: v3)
  have g1: "\<not> file_passes fs_production_644 ''.env'' [(''NODE_ENV'', ''production'')]" by code_simp
  from T2 have c: "\<not> file_passes fs_production_644 ''.env'' [(''NODE_ENV'', ''production'')] \<longrightarrow>
      loadEnvFiles fs_production_644 [(''NODE_ENV'', ''production'')]
       = ([(''NODE_ENV'', ''production'')], Some (InsecurePermissions ''.env''))"
    by (elim conjE)
  note r3 = mp [OF c g1]
  have k1: "file_passes fs_production_mode_644 ''.env'' env_production" by code_simp
  have k2: "\<not> file_passes fs_production_mode_644 (mode_file fs_production_mode_644 env_production)
         (base_loaded fs_production_mode_644 env_production)" by code_simp
  have w1: "base_loaded fs_production_mode_644 env_production = env_production @ [(''FOO'', ''1'')]"
    by code_simp
  have w2: "mode_file fs_production_mode_644 env_production = ''.env-production''" by code_simp
  from T3 have d: "file_passes fs_production_mode_644 ''.env'' env_production
       \<and> \<not> file_passes fs_production_mode_644 (mode_file fs_production_mode_644 env_production)
         (base_loaded fs_production_mode_644 env_production) \<longrightarrow>
      loadEnvFiles fs_production_mode_644 env_production
       = (base_loaded fs_production_mode_644 env_production,
          Some (InsecurePermissions (mode_file fs_production_mode_644 env_production)))"
    by (elim conjE)
  have r4: "loadEnvFiles fs_production_mode_644 env_production
       = (env_production @ [(''FOO'', ''1'')], Some (InsecurePermissions ''.env-production''))"
    using mp [OF d conjI [OF k1 k2]] by (simp only: w1 w2)
  from h1 h2 h4 h5 r1 r2 g1 r3 k1 k2 r4 m1 m3 m5 r5 show ?thesis by (intro conjI)
qed

text \<open>
  C8 as stated fails twice. With the permission bits 0644 on the two files of the
  example, loading in production mode stops at \<open>.env\<close> and \<open>FOO\<close> is never set. And a
  base file with the line \<open>FOO =1\<close> replaces a value of \<open>FOO\<close> that was there before,
  although it is loaded without override.
\<close>

theorem C8_load_order_counterexample:
  "loadEnvFiles fs_production_644 [(''NODE_ENV'', ''production'')]
     = ([(''NODE_ENV'', ''production'')], Some (InsecurePermissions ''.env''))
   \<and> env_get (fst (loadEnvFiles fs_production_644 [(''NODE_ENV'', ''production'')])) ''FOO'' \<noteq> Some ''2''
   \<and> env_get [(''FOO'', ''0'')] ''FOO'' = Some ''0''
   \<and> env_get (fst (loadEnvFromFile fs_spaced ''.env'' False [(''FOO'', ''0'')])) ''FOO'' = Some ''1''"
  by code_simp

text \<open>
  C5 on the files of the development setup: the target of the local file wins, the
  sourcemap setting of \<open>.env-development\<close> stays.
\<close>

theorem C5_local_keeps_sourcemap_witness:
  "file_passes fs_development ''.env'' []
   \<and> nodeEnv_of (base_loaded fs_development []) = ''development''
   \<and> fs_development ''.env-local'' \<noteq> None
   \<and> file_passes fs_development ''.env-local'' (mode_loaded fs_development [])
   \<and> map_of (rev (values_at fs_development ''.env-local'')) ''PACKR_TARGET'' = Some ''es2022''
   \<and> map_of (rev (values_at fs_development ''.env-local'')) ''PACKR_SOURCEMAP'' = Some ''false''
   \<and> env_get (mode_loaded fs_development []) ''PACKR_SOURCEMAP'' = Some ''true''
   \<and> snd (loadEnvFiles fs_development []) = None
   \<and> env_get (fst (loadEnvFiles fs_development [])) ''PACKR_TARGET'' = Some ''es2022''
   \<and> env_get (fst (loadEnvFiles fs_development [])) ''PACKR_SOURCEMAP'' = Some ''true''"
proof -
  have h1: "file_passes fs_development ''.env'' []" by code_simp
  have h2: "nodeEnv_of (base_loaded fs_development []) = ''development''" by code_simp
  have h3: "fs_development ''.env-local'' \<noteq> None" by code_simp
  have h4: "file_passes fs_development ''.env-local'' (mode_loaded fs_development [])" by code_simp
  have v: "map_of (rev (values_at fs_development ''.env-local'')) ''PACKR_TARGET'' = Some ''es2022''
           \<and> map_of (rev (values_at fs_development ''.env-local'')) ''PACKR_SOURCEMAP'' = Some ''false''"
    by code_simp
  have sm: "env_get (mode_loaded fs_development []) ''PACKR_SOURCEMAP'' = Some ''true''" by code_simp
  have ne: "''PACKR_TARGET'' \<noteq> ''PACKR_SOURCEMAP''" by simp
  note T = C5_local_keeps_sourcemap [OF h1 h2 h3 h4]
  from T have a: "snd (loadEnvFiles fs_development []) = None" by (rule conjunct1)
  from T have c: "\<forall>k v. k \<noteq> ''PACKR_SOURCEMAP'' \<and> map_of (rev (values_at fs_development ''.env-local'')) k = Some v
                    \<longrightarrow> env_get (fst (loadEnvFiles fs_development [])) k = Some v"
    by (elim conjE)
  from T have d: "\<forall>v. env_get (mode_loaded fs_development []) ''PACKR_SOURCEMAP'' = Some v
                    \<longrightarrow> env_get (fst (loadEnvFiles fs_development [])) ''PACKR_SOURCEMAP'' = Some v"
    by (elim conjE)
  have t: "env_get (fst (loadEnvFiles fs_development [])) ''PACKR_TARGET'' = Some ''es2022''"
    using c [rule_format, of "''PACKR_TARGET''" "''es2022''"] v ne by (simp only: simp_thms)
  have s: "env_get (fst (loadEnvFiles fs_development [])) ''PACKR_SOURCEMAP'' = Some ''true''"
    using d [rule_format, of "''true''"] sm by (simp only: simp_thms)
  show ?thesis
    using h1 h2 h3 h4 v sm a t s by (simp only: simp_thms)
qed

text \<open>
  Three corners of the loader. Without the required variables the production example
  has \<open>FOO\<close> at 2 and ends with the error of the production checks. A base file does
  not set a name that \<open>process.env\<close> inherits, and no file sets the empty name.
\<close>

lemma production_example_without_required:
  "loadEnvFiles fs_production [(''NODE_ENV'', ''production'')]
     = ([(''NODE_ENV'', ''production''), (''FOO'', ''2'')], Some (MissingEnvironment requiredVars))"
  by code_simp

lemma inherited_name_not_set:
  "loadEnvFromFile [''.env'' \<mapsto> \<lparr>file_mode = 420, file_text = ''toString=1''\<rparr>] ''.env'' False []
     = ([], None)"
  by code_simp

lemma empty_name_not_set:
  "loadEnvFromFile [''.env'' \<mapsto> \<lparr>file_mode = 420, file_text = ''=v''\<rparr>] ''.env'' True []
     = ([], None)"
  by code_simp

subsection \<open>Merging and validation\<close>







lemma userConfig_fields:
  assumes "userConfig e opts file = Inr uc"
  shows "scss_input uc = js_or (env_get e ''PACKR_SCSS_INPUT'') (js_or (opt_scssInput opts) (cfg_scss_input file))"
    and "scss_output uc = js_or (env_get e ''PACKR_SCSS_OUTPUT'') (js_or (opt_scssOutput opts) (cfg_scss_output file))"
    and "js_input uc = js_or (env_get e ''PACKR_JS_INPUT'') (js_or (opt_jsInput opts) (cfg_js_input file))"
    and "js_output uc = js_or (env_get e ''PACKR_JS_OUTPUT'') (js_or (opt_jsOutput opts) (cfg_js_output file))"
    and "css_destination uc = js_or (env_get e ''PACKR_CSS_DESTINATION'') (js_or (opt_cssDestination opts) (cfg_css_destination file))"
    and "js_destination uc = js_or (env_get e ''PACKR_JS_DESTINATION'') (js_or (opt_jsDestination opts) (cfg_js_destination file))"
    and "target uc = or_default (js_or (env_get e ''PACKR_TARGET'') (js_or (opt_target opts) (cfg_target file))) ''es2020''"
    and "format uc = or_default (js_or (env_get e ''PACKR_FORMAT'') (js_or (opt_format opts) (cfg_format file))) ''iife''"
    and "eslint_config uc = js_or (env_get e ''PACKR_ESLINT_CONFIG'') (cfg_eslint_config file)"
    and "Inr (reserved (uglify uc)) = reserved_names (env_get e ''PACKR_UGLIFY_RESERVED'')
           (Option.bind (opt_uglify opts) opt_reserved) (Option.bind (cfg_uglify file) cfg_reserved)"
  using assms by (auto simp: userConfig_def Let_def split: sum.splits)

lemma userConfig_flags:
  assumes "userConfig e opts file = Inr uc"
  shows "minify uc = (env_get e ''PACKR_MINIFY'' = Some ''true'' \<or>
            (env_get e ''PACKR_MINIFY'' \<noteq> Some ''false'' \<and> defined_or (opt_minify opts) (cfg_minify file) True))"
    and "minify_js uc = (env_get e ''PACKR_MINIFY_JS'' = Some ''true'' \<or>
            (env_get e ''PACKR_MINIFY_JS'' \<noteq> Some ''false'' \<and> defined_or (opt_minifyJs opts) (cfg_minify_js file) True))"
    and "minify_css uc = (env_get e ''PACKR_MINIFY_CSS'' = Some ''true'' \<or>
            (env_get e ''PACKR_MINIFY_CSS'' \<noteq> Some ''false'' \<and> defined_or (opt_minifyCss opts) (cfg_minify_css file) True))"
    and "mangle (uglify uc) = (env_get e ''PACKR_UGLIFY_MANGLE'' = Some ''true'' \<or>
            (env_get e ''PACKR_UGLIFY_MANGLE'' \<noteq> Some ''false'' \<and>
             defined_or (Option.bind (opt_uglify opts) opt_mangle) (Option.bind (cfg_uglify file) cfg_mangle) True))"
    and "sourcemap uc = (if env_get e ''PACKR_SOURCEMAP'' = Some ''true'' then True
                         else if env_get e ''PACKR_SOURCEMAP'' = Some ''false'' then False
                         else defined_or (opt_sourcemap opts) (cfg_sourcemap file) False)"
  using assms by (auto simp: userConfig_def Let_def split: sum.splits)

text \<open>
  Where the merge follows the order variable, option, file, default: a variable of a
  string field that is set and not empty is the merged value.
\<close>

lemma env_string_wins:
  assumes "userConfig e opts file = Inr uc"
  shows "truthy (env_get e ''PACKR_SCSS_INPUT'') \<Longrightarrow> scss_input uc = env_get e ''PACKR_SCSS_INPUT''"
    and "truthy (env_get e ''PACKR_SCSS_OUTPUT'') \<Longrightarrow> scss_output uc = env_get e ''PACKR_SCSS_OUTPUT''"
    and "truthy (env_get e ''PACKR_JS_INPUT'') \<Longrightarrow> js_input uc = env_get e ''PACKR_JS_INPUT''"
    and "truthy (env_get e ''PACKR_JS_OUTPUT'') \<Longrightarrow> js_output uc = env_get e ''PACKR_JS_OUTPUT''"
    and "truthy (env_get e ''PACKR_CSS_DESTINATION'') \<Longrightarrow> css_destination uc = env_get e ''PACKR_CSS_DESTINATION''"
    and "truthy (env_get e ''PACKR_JS_DESTINATION'') \<Longrightarrow> js_destination uc = env_get e ''PACKR_JS_DESTINATION''"
    and "truthy (env_get e ''PACKR_ESLINT_CONFIG'') \<Longrightarrow> eslint_config uc = env_get e ''PACKR_ESLINT_CONFIG''"
    and "truthy (env_get e ''PACKR_TARGET'') \<Longrightarrow> Some (target uc) = env_get e ''PACKR_TARGET''"
    and "truthy (env_get e ''PACKR_FORMAT'') \<Longrightarrow> Some (format uc) = env_get e ''PACKR_FORMAT''"
  using userConfig_fields [OF assms]
  by (auto simp: js_or_def or_default_def truthy_def split: option.splits)







lemma validate_required_first:
  "validate_required required uc =
     (if \<not> truthy (scss_input uc) then Some (MissingRequired ''scss_input'')
      else if \<not> truthy (scss_output uc) then Some (MissingRequired ''scss_output'')
      else if \<not> truthy (js_input uc) then Some (MissingRequired ''js_input'')
      else if \<not> truthy (js_output uc) then Some (MissingRequired ''js_output'')
      else None)"
  by (simp add: required_def)

text \<open>
  C3: when the configuration file (if any) is loaded and merged and one of the four
  required fields of the merged configuration is missing, \<open>packr\<close> throws the
  validation error for such a field and has no effect: the artifact is not written and
  no process is spawned.
\<close>


theorem C3_missing_required_aborts:
  assumes "load_config w options = Inr (configFromFile, configDir)"
      and "userConfig (environ w) options configFromFile = Inr uc"
      and "\<not> truthy (scss_input uc) \<or> \<not> truthy (scss_output uc)
           \<or> \<not> truthy (js_input uc) \<or> \<not> truthy (js_output uc)"
  shows "\<exists>key \<in> set [''scss_input'', ''scss_output'', ''js_input'', ''js_output''].
           packr w options = (Thrown (MissingRequired key), [])"
  using assms by (auto simp: packr_def validate_required_first)

text \<open>C3 for a call without options, file and variables.\<close>

theorem C3_missing_required_aborts_witness:
  "load_config example_world no_options = Inr (empty_file_config, ''/proj'')
   \<and> userConfig (environ example_world) no_options empty_file_config = Inr bare_user_config
   \<and> \<not> truthy (scss_input bare_user_config)
   \<and> (\<exists>key \<in> set [''scss_input'', ''scss_output'', ''js_input'', ''js_output''].
           packr example_world no_options = (Thrown (MissingRequired key), []))"
proof -
  have h1: "load_config example_world no_options = Inr (empty_file_config, ''/proj'')" by code_simp
  have h2: "userConfig (environ example_world) no_options empty_file_config = Inr bare_user_config"
    by code_simp
  have h3: "\<not> truthy (scss_input bare_user_config)" by code_simp
  from h3 have h3': "\<not> truthy (scss_input bare_user_config) \<or> \<not> truthy (scss_output bare_user_config)
           \<or> \<not> truthy (js_input bare_user_config) \<or> \<not> truthy (js_output bare_user_config)" by simp
  from C3_missing_required_aborts [OF h1 h2 h3'] h1 h2 h3 show ?thesis by blast
qed

text \<open>No call that throws has written the artifact or spawned a process.\<close>


lemma packr_thrown_no_effects:
  "packr w options = (Thrown err, effects) \<Longrightarrow> effects = []"
  by (auto simp: packr_def launch_def Let_def split: sum.splits option.splits if_splits prod.splits)

text \<open>
  What \<open>config\<close> holds once it is built: each of the four required paths and each
  destination that is present is the result of \<open>resolveSafe\<close> against \<open>configDir\<close>;
  \<open>eslint_config\<close> is the merged value as it was.
\<close>

lemma resolve_paths_sandboxed:
  assumes "resolve_paths root configDir uc = Inr c"
  shows "resolve_required root (scss_input uc) configDir = Inr (conf_scss_input c)"
    and "resolve_required root (scss_output uc) configDir = Inr (conf_scss_output c)"
    and "resolve_required root (js_input uc) configDir = Inr (conf_js_input c)"
    and "resolve_required root (js_output uc) configDir = Inr (conf_js_output c)"
    and "resolve_optional root (css_destination uc) configDir = Inr (conf_css_destination c)"
    and "resolve_optional root (js_destination uc) configDir = Inr (conf_js_destination c)"
    and "eslint_config (conf_user c) = eslint_config uc"
  using assms by (auto simp: resolve_paths_def then_do_def split: sum.splits)

text \<open>
  C1 fails on the code: in an environment that sets the variables of
  \<open>uglify.keep_fnames\<close>, \<open>uglify.keep_classnames\<close>, \<open>verbose\<close> and \<open>eslint\<close> to \<open>false\<close>,
  a call with \<open>options.config\<close> naming a configuration file that sets the four fields
  to true merges them to true, and the artifact is written with \<open>keep_fnames\<close>,
  \<open>keep_classnames\<close> and \<open>verbose\<close> true; \<open>minify\<close> and \<open>uglify.mangle\<close>, set the same
  way on both sides, are false.
\<close>

theorem C1_false_variable_ignored:
  "env_get (environ flags_world) ''PACKR_UGLIFY_KEEP_FNAMES'' = Some ''false''
   \<and> env_get (environ flags_world) ''PACKR_UGLIFY_KEEP_CLASSNAMES'' = Some ''false''
   \<and> env_get (environ flags_world) ''PACKR_VERBOSE'' = Some ''false''
   \<and> env_get (environ flags_world) ''PACKR_ESLINT'' = Some ''false''
   \<and> load_config flags_world flags_options = Inr (flags_file, ''/proj'')
   \<and> (case userConfig (environ flags_world) flags_options flags_file of
         Inl err \<Rightarrow> False
       | Inr uc \<Rightarrow> keep_fnames (uglify uc) \<and> keep_classnames (uglify uc) \<and> verbose uc \<and> eslint uc
                  \<and> \<not> minify uc \<and> \<not> mangle (uglify uc))
   \<and> packr flags_world flags_options
       = (Promise (Some Resolved),
          [WriteFile ''/proj/.packr-config.json'' flags_artifact,
           SpawnProcess ''/pkg/bin/packr'' [''/proj/.packr-config.json'']])"
  by code_simp

text \<open>
  C4 fails on the code: \<open>eslint_config\<close> is not passed through \<open>resolveSafe\<close>. With a
  configuration file that names a path outside the root for it, a path \<open>resolveSafe\<close>
  refuses, \<open>config\<close> is built with the path as it is, the artifact is written and the
  worker is spawned.
\<close>

theorem C4_eslint_config_not_sandboxed:
  "load_config eslint_world eslint_options = Inr (eslint_file, ''/proj'')
   \<and> resolveSafe ''/proj'' ''../../outside/eslintrc.json'' ''/proj''
       = Inl (UnsafePath ''../../outside/eslintrc.json'')
   \<and> (case userConfig (environ eslint_world) eslint_options eslint_file of
         Inl err \<Rightarrow> False
       | Inr uc \<Rightarrow>
           (case resolve_paths ''/proj'' ''/proj'' uc of
              Inl err \<Rightarrow> False
            | Inr c \<Rightarrow> eslint_config (conf_user c) = Some ''../../outside/eslintrc.json''))
   \<and> packr eslint_world eslint_options
       = (Promise (Some Resolved),
          [WriteFile ''/proj/.packr-config.json'' eslint_artifact,
           SpawnProcess ''/pkg/bin/packr'' [''/proj/.packr-config.json'']])"
  by code_simp


subsection \<open>The outcome of the launch\<close>


text \<open>
  The worker is spawned when the configuration is loaded, merged, validated and
  resolved and the binary is there; and what \<open>packr\<close> returns once it has spawned the
  worker is the promise that the events of the worker settle.
\<close>

lemma packr_spawns:
  assumes "load_config w options = Inr (configFromFile, configDir)"
      and "userConfig (environ w) options configFromFile = Inr uc"
      and "validate_required required uc = None"
      and "resolve_paths (workdir w) configDir uc = Inr c"
      and "binary_exists w"
  shows "\<exists>args. SpawnProcess (binaryPath w) args \<in> set (snd (packr w options))"
  using assms by (simp add: packr_def launch_def Let_def)




end
